theory Spec2Isabelle
  imports Complex_Main "HOL-Library.Sublist"
begin


section \<open>ScrollVars: numbers\<close>

text \<open>
  The embedding follows \<^verbatim>\<open>src/scrollvars.js\<close>. A JavaScript number is an IEEE 754
  double: \<open>Num x\<close> for a finite one of value \<open>x\<close>, the two infinities, and NaN. Every
  arithmetic operation computes the exact result and rounds it to the nearest double,
  ties to the even significand (\<open>to_double\<close>): 53 bits of significand, quantum
  \<open>2 powi (- 1074)\<close> below \<open>2 powi (- 1022)\<close> (subnormal numbers), and an infinity
  when the rounded value reaches \<open>2 ^ 1024\<close>.

  The sign of a zero is not modelled: \<open>Num 0\<close> is both zeros. The code cannot tell them
  apart: they are equal under every comparison, \<^verbatim>\<open>String\<close> prints both as \<^verbatim>\<open>0\<close>, and no
  division of the code has a zero divisor (in \<open>fdiv\<close> a zero divisor counts as \<open>+0\<close>).
\<close>

datatype jsnum = Num real | PosInf | NegInf | NaN

text \<open>Rounding to the nearest integer, a tie to the even one.\<close>

definition round_even :: "real \<Rightarrow> int" where
  "round_even y =
     (let f = \<lfloor>y\<rfloor>
      in if y - of_int f < 1 / 2 then f
         else if y - of_int f > 1 / 2 then f + 1
         else if even f then f else f + 1)"

text \<open>The exponent of the unit in the last place of the doubles around \<open>x\<close>.\<close>

definition quantum :: "real \<Rightarrow> int" where
  "quantum x = (if \<bar>x\<bar> < 2 powi (- 1022) then - 1074 else \<lfloor>log 2 \<bar>x\<bar>\<rfloor> - 52)"

definition round_unbounded :: "real \<Rightarrow> real" where
  "round_unbounded x = of_int (round_even (x / 2 powi quantum x)) * 2 powi quantum x"

definition to_double :: "real \<Rightarrow> jsnum" where
  "to_double x =
     (let y = round_unbounded x
      in if 2 ^ 1024 \<le> \<bar>y\<bar> then (if 0 < y then PosInf else NegInf) else Num y)"

text \<open>The reals that are doubles: those that rounding leaves as they are.\<close>

definition is_double :: "real \<Rightarrow> bool" where
  "is_double x = (to_double x = Num x)"

text \<open>\<^verbatim>\<open>Number.isFinite\<close>, unary minus, and the comparisons \<^verbatim>\<open><\<close>, \<^verbatim>\<open><=\<close>, \<^verbatim>\<open>>\<close>, \<^verbatim>\<open>>=\<close>
  (all false on NaN).\<close>

fun isFinite :: "jsnum \<Rightarrow> bool" where
  "isFinite (Num x) = True"
| "isFinite PosInf = False"
| "isFinite NegInf = False"
| "isFinite NaN = False"

fun negate :: "jsnum \<Rightarrow> jsnum" where
  "negate (Num x) = Num (- x)"
| "negate PosInf = NegInf"
| "negate NegInf = PosInf"
| "negate NaN = NaN"

fun js_lt :: "jsnum \<Rightarrow> jsnum \<Rightarrow> bool" where
  "js_lt (Num x) (Num y) = (x < y)"
| "js_lt (Num x) PosInf = True"
| "js_lt NegInf (Num y) = True"
| "js_lt NegInf PosInf = True"
| "js_lt a b = False"

definition js_le :: "jsnum \<Rightarrow> jsnum \<Rightarrow> bool" where
  "js_le a b = (js_lt a b \<or> (a = b \<and> a \<noteq> NaN))"

definition js_gt :: "jsnum \<Rightarrow> jsnum \<Rightarrow> bool" where
  "js_gt a b = js_lt b a"

definition js_ge :: "jsnum \<Rightarrow> jsnum \<Rightarrow> bool" where
  "js_ge a b = js_le b a"

text \<open>The operations \<^verbatim>\<open>+\<close>, \<^verbatim>\<open>-\<close>, \<^verbatim>\<open>*\<close>, \<^verbatim>\<open>/\<close> on numbers.\<close>

fun fadd :: "jsnum \<Rightarrow> jsnum \<Rightarrow> jsnum" where
  "fadd (Num x) (Num y) = to_double (x + y)"
| "fadd NaN b = NaN"
| "fadd a NaN = NaN"
| "fadd PosInf NegInf = NaN"
| "fadd NegInf PosInf = NaN"
| "fadd PosInf b = PosInf"
| "fadd a PosInf = PosInf"
| "fadd NegInf b = NegInf"
| "fadd a NegInf = NegInf"

definition fsub :: "jsnum \<Rightarrow> jsnum \<Rightarrow> jsnum" where
  "fsub a b = fadd a (negate b)"

fun fmul :: "jsnum \<Rightarrow> jsnum \<Rightarrow> jsnum" where
  "fmul (Num x) (Num y) = to_double (x * y)"
| "fmul NaN b = NaN"
| "fmul a NaN = NaN"
| "fmul a b =
     (if a = Num 0 \<or> b = Num 0 then NaN
      else if js_lt a (Num 0) = js_lt b (Num 0) then PosInf else NegInf)"

fun fdiv :: "jsnum \<Rightarrow> jsnum \<Rightarrow> jsnum" where
  "fdiv (Num x) (Num y) =
     (if y = 0 then (if x = 0 then NaN else if 0 < x then PosInf else NegInf)
      else to_double (x / y))"
| "fdiv NaN b = NaN"
| "fdiv a NaN = NaN"
| "fdiv (Num x) b = Num 0"
| "fdiv a (Num y) = (if js_lt a (Num 0) = (y < 0) then PosInf else NegInf)"
| "fdiv a b = NaN"

text \<open>\<^verbatim>\<open>Math.min\<close> and \<^verbatim>\<open>Math.max\<close> of two numbers: NaN when one of them is.\<close>

definition Math_min :: "jsnum \<Rightarrow> jsnum \<Rightarrow> jsnum" where
  "Math_min a b = (if a = NaN \<or> b = NaN then NaN else if js_lt b a then b else a)"

definition Math_max :: "jsnum \<Rightarrow> jsnum \<Rightarrow> jsnum" where
  "Math_max a b = (if a = NaN \<or> b = NaN then NaN else if js_lt a b then b else a)"

text \<open>A double or an infinity: what a product of two finite numbers is, and a finite
  number minus such a product.\<close>

definition dbl_or_inf :: "jsnum \<Rightarrow> bool" where
  "dbl_or_inf a = (case a of Num x \<Rightarrow> is_double x | NaN \<Rightarrow> False | _ \<Rightarrow> True)"

section \<open>Strings\<close>

text \<open>
  A string is a list of code units below 256 (\<^typ>\<open>char\<close>). The white space of
  \<^verbatim>\<open>trim()\<close> and of \<^verbatim>\<open>\s\<close> in that range is TAB, LF, VT, FF, CR, SP and NBSP; the
  line terminators that \<^verbatim>\<open>.\<close> refuses are LF and CR.
\<close>

definition is_ws :: "char \<Rightarrow> bool" where
  "is_ws c = ((of_char c :: nat) \<in> {9, 10, 11, 12, 13, 32, 160})"

definition is_line_terminator :: "char \<Rightarrow> bool" where
  "is_line_terminator c = ((of_char c :: nat) \<in> {10, 13})"

definition is_digit :: "char \<Rightarrow> bool" where
  "is_digit c = (c \<in> set ''0123456789'')"

definition is_alpha :: "char \<Rightarrow> bool" where
  "is_alpha c = (c \<in> set ''ABCDEFGHIJKLMNOPQRSTUVWXYZabcdefghijklmnopqrstuvwxyz'')"

text \<open>\<^verbatim>\<open>s.trim()\<close>\<close>

definition trim :: "string \<Rightarrow> string" where
  "trim s = rev (dropWhile is_ws (rev (dropWhile is_ws s)))"

text \<open>\<^verbatim>\<open>s.split(c)\<close> for a one-character separator: the pieces between the separators,
  empty pieces included; the empty string gives one empty piece.\<close>

fun split_on :: "char \<Rightarrow> string \<Rightarrow> string list" where
  "split_on sep [] = [[]]"
| "split_on sep (c # cs) =
     (if c = sep then [] # split_on sep cs
      else (case split_on sep cs of
              p # ps \<Rightarrow> (c # p) # ps
            | [] \<Rightarrow> [[c]]))"

subsection \<open>Number(string)\<close>

text \<open>
  The conversion of a string to a number (ECMAScript StringToNumber): white space is
  trimmed, the empty string is 0, then a literal \<^verbatim>\<open>0x\<close>, \<^verbatim>\<open>0o\<close>, \<^verbatim>\<open>0b\<close> without
  sign, or a signed decimal literal (digits, optional fraction, optional exponent, or
  \<^verbatim>\<open>Infinity\<close>); anything else is NaN. The value of a literal is rounded to the nearest
  double (\<open>to_double\<close>), an infinity beyond the range.
\<close>

definition digit_val :: "char \<Rightarrow> nat" where
  "digit_val c =
     (if is_digit c then of_char c - 48
      else if c \<in> set ''abcdef'' then of_char c - 87
      else of_char c - 55)"

definition digits_val :: "nat \<Rightarrow> string \<Rightarrow> nat" where
  "digits_val base ds = foldl (\<lambda>n c. base * n + digit_val c) 0 ds"

definition radix_value :: "nat \<Rightarrow> (char \<Rightarrow> bool) \<Rightarrow> string \<Rightarrow> jsnum" where
  "radix_value base ok ds =
     (if ds \<noteq> [] \<and> list_all ok ds then to_double (real (digits_val base ds)) else NaN)"

definition radix_literal :: "string \<Rightarrow> jsnum option" where
  "radix_literal s =
     (case s of
        z # p # ds \<Rightarrow>
          if z \<noteq> CHR ''0'' then None
          else if p \<in> set ''xX'' then
            Some (radix_value 16 (\<lambda>c. is_digit c \<or> c \<in> set ''abcdefABCDEF'') ds)
          else if p \<in> set ''oO'' then Some (radix_value 8 (\<lambda>c. c \<in> set ''01234567'') ds)
          else if p \<in> set ''bB'' then Some (radix_value 2 (\<lambda>c. c \<in> set ''01'') ds)
          else None
      | _ \<Rightarrow> None)"

definition exponent_part :: "string \<Rightarrow> int option" where
  "exponent_part r =
     (case r of
        [] \<Rightarrow> Some 0
      | c # r' \<Rightarrow>
          if c \<in> set ''eE'' then
            (let neg = (r' \<noteq> [] \<and> hd r' = CHR ''-'');
                 ds = (if r' \<noteq> [] \<and> hd r' \<in> set ''+-'' then tl r' else r')
             in if ds \<noteq> [] \<and> list_all is_digit ds
                then Some (if neg then - int (digits_val 10 ds) else int (digits_val 10 ds))
                else None)
          else None)"

definition scale10 :: "real \<Rightarrow> int \<Rightarrow> real" where
  "scale10 x e = (if 0 \<le> e then x * 10 ^ nat e else x / 10 ^ nat (- e))"

definition str_unsigned_decimal :: "string \<Rightarrow> jsnum" where
  "str_unsigned_decimal s =
     (if s = ''Infinity'' then PosInf
      else
        (let ip = takeWhile is_digit s;
             r1 = dropWhile is_digit s;
             has_dot = (r1 \<noteq> [] \<and> hd r1 = CHR ''.'');
             fp = (if has_dot then takeWhile is_digit (tl r1) else []);
             r2 = (if has_dot then dropWhile is_digit (tl r1) else r1)
         in if ip = [] \<and> fp = [] then NaN
            else (case exponent_part r2 of
                    None \<Rightarrow> NaN
                  | Some e \<Rightarrow>
                      to_double (scale10 (real (digits_val 10 (ip @ fp))) (e - int (length fp))))))"

definition Number :: "string \<Rightarrow> jsnum" where
  "Number str =
     (let s = trim str in
      if s = [] then Num 0
      else (case radix_literal s of
              Some n \<Rightarrow> n
            | None \<Rightarrow>
                if hd s = CHR ''-'' then negate (str_unsigned_decimal (tl s))
                else if hd s = CHR ''+'' then str_unsigned_decimal (tl s)
                else str_unsigned_decimal s))"

text \<open>\<^verbatim>\<open>toNum(v, def)\<close>: \<open>None\<close> is the \<^verbatim>\<open>null\<close> of a missing attribute.\<close>

definition toNum :: "string option \<Rightarrow> real \<Rightarrow> real" where
  "toNum v d =
     (case v of
        None \<Rightarrow> d
      | Some s \<Rightarrow>
          if s = [] then d
          else (case Number s of Num n \<Rightarrow> n | _ \<Rightarrow> d))"

section \<open>The spec parser\<close>

text \<open>One parsed entry \<^verbatim>\<open>{name, min, max, init}\<close>.\<close>

record RangeSpec =
  spec_name :: string
  spec_min :: real
  spec_max :: real
  spec_init :: real

definition is_name_start :: "char \<Rightarrow> bool" where
  "is_name_start c = (is_alpha c \<or> c = CHR ''_'' \<or> c = CHR ''-'')"

definition is_name_char :: "char \<Rightarrow> bool" where
  "is_name_char c = (is_name_start c \<or> is_digit c)"

text \<open>
  The first regular expression of \<^verbatim>\<open>parseSpec\<close>,
  \<^verbatim>\<open>/^([A-Za-z_\-][A-Za-z0-9_\-]*)\s*=\s*([^@]+?)(?:@(.+))?$/\<close>, as the scanner it
  amounts to. The result is the three groups; \<open>None\<close> is no match.
  \<^item> Group 1 is the longest run of name characters: the character after it has to be white
    space or \<^verbatim>\<open>=\<close>, neither a name character, so no shorter run can match.
  \<^item> Group 2 has no \<^verbatim>\<open>@\<close> and is followed by \<^verbatim>\<open>@\<close> or by the end, so it ends at the
    first \<^verbatim>\<open>@\<close> (or at the end); it is not empty. The greedy \<^verbatim>\<open>\s*\<close> before it takes
    the leading white space, and gives the last one back when nothing else is left.
  \<^item> Group 3 is all that follows the first \<^verbatim>\<open>@\<close>: not empty, and without a line
    terminator, which \<^verbatim>\<open>.\<close> does not match.
\<close>

definition match_entry :: "string \<Rightarrow> (string \<times> string \<times> string option) option" where
  "match_entry part =
     (case part of
        [] \<Rightarrow> None
      | c # cs \<Rightarrow>
          if \<not> is_name_start c then None
          else
            (let name = c # takeWhile is_name_char cs;
                 r0 = dropWhile is_ws (dropWhile is_name_char cs)
             in if r0 = [] \<or> hd r0 \<noteq> CHR ''='' then None
                else
                  (let pre = takeWhile (\<lambda>x. x \<noteq> CHR ''@'') (tl r0);
                       post = dropWhile (\<lambda>x. x \<noteq> CHR ''@'') (tl r0);
                       g = dropWhile is_ws pre;
                       m2 = (if g = [] then [last pre] else g)
                   in if pre = [] then None
                      else if post = [] then Some (name, m2, None)
                      else if tl post = [] \<or> list_ex is_line_terminator (tl post) then None
                      else Some (name, m2, Some (tl post)))))"

text \<open>
  The token \<^verbatim>\<open>[+\-]?\d+(?:\.\d+)?\<close> at the head of a string: the token and the rest.
  A dot belongs to the token only when a digit follows it.
\<close>

definition take_number :: "string \<Rightarrow> (string \<times> string) option" where
  "take_number s =
     (let sg = (if s \<noteq> [] \<and> hd s \<in> set ''+-'' then [hd s] else []);
          r0 = (if s \<noteq> [] \<and> hd s \<in> set ''+-'' then tl s else s);
          ip = takeWhile is_digit r0;
          r1 = dropWhile is_digit r0
      in if ip = [] then None
         else if r1 \<noteq> [] \<and> hd r1 = CHR ''.'' \<and> takeWhile is_digit (tl r1) \<noteq> []
         then Some (sg @ ip @ ''.'' @ takeWhile is_digit (tl r1), dropWhile is_digit (tl r1))
         else Some (sg @ ip, r1))"

text \<open>
  The second regular expression,
  \<^verbatim>\<open>/^\s*([+\-]?\d+(?:\.\d+)?)\s*\.\.\s*([+\-]?\d+(?:\.\d+)?)\s*$/\<close>: its two groups.
\<close>

definition match_range :: "string \<Rightarrow> (string \<times> string) option" where
  "match_range rng =
     (case take_number (dropWhile is_ws rng) of
        None \<Rightarrow> None
      | Some (n1, r) \<Rightarrow>
          (let r' = dropWhile is_ws r
           in if take 2 r' \<noteq> ''..'' then None
              else (case take_number (dropWhile is_ws (drop 2 r')) of
                      None \<Rightarrow> None
                    | Some (n2, r'') \<Rightarrow>
                        if dropWhile is_ws r'' = [] then Some (n1, n2) else None)))"

text \<open>The body of the loop of \<^verbatim>\<open>parseSpec\<close>: \<open>None\<close> is \<^verbatim>\<open>continue\<close>, \<open>Some\<close> the
  entry pushed.\<close>

definition parseEntry :: "string \<Rightarrow> RangeSpec option" where
  "parseEntry part =
     (case match_entry part of
        None \<Rightarrow> None
      | Some (name, m2, m3) \<Rightarrow>
          (let rng = trim m2;
               initRaw = map_option trim m3
           in case match_range rng of
                None \<Rightarrow> None
              | Some (n1, n2) \<Rightarrow>
                  (let mn = Number n1;
                       mx = Number n2;
                       ini = (case initRaw of Some r \<Rightarrow> Number r | None \<Rightarrow> mn)
                   in if \<not> isFinite mn \<or> \<not> isFinite mx \<or> \<not> isFinite ini then None
                      else (case (mn, mx, ini) of
                              (Num a, Num b, Num c) \<Rightarrow>
                                Some \<lparr>spec_name = name, spec_min = a, spec_max = b, spec_init = c\<rparr>
                            | _ \<Rightarrow> None))))"

text \<open>\<^verbatim>\<open>parseSpec(raw)\<close>; \<open>None\<close> is the \<^verbatim>\<open>null\<close> of a missing attribute.\<close>

definition parseSpec :: "string option \<Rightarrow> RangeSpec list" where
  "parseSpec raw =
     (case raw of
        None \<Rightarrow> []
      | Some r \<Rightarrow>
          if r = [] then []
          else List.map_filter parseEntry
                 (filter (\<lambda>s. s \<noteq> []) (map trim (split_on CHR '';'' r))))"

section \<open>Progress and range mapping\<close>

text \<open>
  \<^verbatim>\<open>computeProgress(el, start, end)\<close>. What the function reads from the page is given:
  \<open>rect_top\<close> and \<open>rect_bottom\<close> of \<^verbatim>\<open>el.getBoundingClientRect()\<close>, and the viewport
  height \<open>vh\<close>, all finite numbers, as are \<open>start\<close> and \<open>endp\<close> (\<open>toNum\<close> lets nothing
  else pass).
\<close>

definition computeProgress :: "real \<Rightarrow> real \<Rightarrow> real \<Rightarrow> real \<Rightarrow> real \<Rightarrow> jsnum" where
  "computeProgress rect_top rect_bottom vh start endp =
     (let startPx = fmul (Num start) (Num vh);
          endPx = fmul (Num endp) (Num vh);
          A = fsub (Num rect_top) startPx;
          B = fsub (Num rect_bottom) endPx
      in if js_gt A (Num 0) then Num 0
         else if js_le B (Num 0) then Num 1
         else fdiv (negate A) (fsub B A))"

definition mapByOrigin :: "jsnum \<Rightarrow> RangeSpec \<Rightarrow> string \<Rightarrow> jsnum" where
  "mapByOrigin t s origin =
     (if origin = ''min'' then
        fadd (Num (spec_min s)) (fmul t (fsub (Num (spec_max s)) (Num (spec_min s))))
      else if origin = ''center'' then
        (let mid = fdiv (fadd (Num (spec_min s)) (Num (spec_max s))) (Num 2)
         in fadd mid (fmul (fsub t (Num (1 / 2))) (fsub (Num (spec_max s)) (Num (spec_min s)))))
      else fadd (Num (spec_init s)) (fmul t (fsub (Num (spec_max s)) (Num (spec_init s)))))"

definition clamp01 :: "jsnum \<Rightarrow> jsnum" where
  "clamp01 t = (if js_lt t (Num 0) then Num 0 else if js_gt t (Num 1) then Num 1 else t)"

section \<open>Instances\<close>

text \<open>The options an instance reads. The default threshold is the double that the
  literal \<^verbatim>\<open>0.0005\<close> denotes.\<close>

record Options =
  startAttr :: string
  endAttr :: string
  specAttr :: string
  originAttr :: string
  activeClass :: string
  startedClass :: string
  endedClass :: string
  clamp :: bool
  threshold :: real
  initUntilStart :: bool
  progressOrigin :: string

definition DEFAULTS :: Options where
  "DEFAULTS =
     \<lparr>startAttr = ''data-sv-start'', endAttr = ''data-sv-end'', specAttr = ''data-sv'',
      originAttr = ''data-sv-origin'', activeClass = ''is-sv-active'',
      startedClass = ''is-sv-started'', endedClass = ''is-sv-ended'', clamp = True,
      threshold = 1152921504606847 / 2 ^ 61, initUntilStart = True,
      progressOrigin = ''init''\<rparr>"

text \<open>
  The element is outside the model. What an instance reads of it is an argument (its
  attributes, its rectangle), and what it does to it is the list of calls it makes, in
  order: \<^verbatim>\<open>style.setProperty(name, String(v))\<close>, \<^verbatim>\<open>classList.toggle(c, b)\<close> and
  \<^verbatim>\<open>dispatchEvent(new CustomEvent(name, {detail: {t}}))\<close>.
\<close>

datatype dom_call =
  SetProperty string jsnum
| ClassToggle string bool
| DispatchEvent string jsnum

fun is_SetProperty :: "dom_call \<Rightarrow> bool" where
  "is_SetProperty (SetProperty n v) = True"
| "is_SetProperty (ClassToggle c b) = False"
| "is_SetProperty (DispatchEvent e t) = False"

fun is_DispatchEvent :: "dom_call \<Rightarrow> bool" where
  "is_DispatchEvent (SetProperty n v) = False"
| "is_DispatchEvent (ClassToggle c b) = False"
| "is_DispatchEvent (DispatchEvent e t) = True"

record Instance =
  inst_specs :: "RangeSpec list"
  inst_start :: real
  inst_end :: real
  inst_origin :: string
  inst_t :: jsnum
  inst_active :: bool
  inst_started :: bool
  inst_ended :: bool

definition updateClasses :: "Options \<Rightarrow> Instance \<Rightarrow> jsnum \<Rightarrow> bool \<Rightarrow> Instance \<times> dom_call list" where
  "updateClasses opts inst t initial =
     (let wasActive = inst_active inst;
          wasStarted = inst_started inst;
          wasEnded = inst_ended inst;
          isStarted = js_gt t (Num (threshold opts));
          isEnded = js_ge t (fsub (Num 1) (Num (threshold opts)));
          isActive = (js_gt t (Num (threshold opts))
                      \<and> js_lt t (fsub (Num 1) (Num (threshold opts))));
          inst' = inst\<lparr>inst_active := isActive, inst_started := isStarted, inst_ended := isEnded\<rparr>;
          toggles = [ClassToggle (activeClass opts) isActive,
                     ClassToggle (startedClass opts) isStarted,
                     ClassToggle (endedClass opts) isEnded];
          events =
            (if initial then []
             else (if \<not> wasStarted \<and> isStarted then [DispatchEvent ''sv:start'' t] else [])
                @ (if \<not> wasActive \<and> isActive then [DispatchEvent ''sv:enter'' t] else [])
                @ (if wasActive \<and> \<not> isActive then [DispatchEvent ''sv:leave'' t] else [])
                @ (if \<not> wasEnded \<and> isEnded then [DispatchEvent ''sv:end'' t] else []))
      in (inst', toggles @ events))"

text \<open>The constructor's loop body on one spec: \<^verbatim>\<open>init\<close> rounded into the range.\<close>

definition clamp_init :: "RangeSpec \<Rightarrow> RangeSpec" where
  "clamp_init s =
     (let s1 = (if spec_init s < spec_min s then s\<lparr>spec_init := spec_min s\<rparr> else s);
          s2 = (if spec_init s1 > spec_max s1 then s1\<lparr>spec_init := spec_max s1\<rparr> else s1)
      in s2)"

text \<open>\<^verbatim>\<open>new Instance(el, opts)\<close>; \<open>attrs\<close> is \<^verbatim>\<open>el.getAttribute\<close>.\<close>

definition Instance_constructor ::
  "Options \<Rightarrow> (string \<Rightarrow> string option) \<Rightarrow> Instance \<times> dom_call list" where
  "Instance_constructor opts attrs =
     (let specs = map clamp_init (parseSpec (attrs (specAttr opts)));
          a = attrs (originAttr opts);
          origin = (if a = Some ''min'' \<or> a = Some ''center'' \<or> a = Some ''init''
                    then the a else progressOrigin opts);
          inst = \<lparr>inst_specs = specs,
                  inst_start = toNum (attrs (startAttr opts)) 0,
                  inst_end = toNum (attrs (endAttr opts)) 1,
                  inst_origin = origin,
                  inst_t = Num 0, inst_active = False, inst_started = False,
                  inst_ended = False\<rparr>;
          writes = map (\<lambda>s. SetProperty (spec_name s) (Num (spec_init s))) specs;
          (inst', calls) = updateClasses opts inst (Num 0) True
      in (inst', writes @ calls))"

text \<open>The body of the loop of \<^verbatim>\<open>update\<close> on one spec: the value \<^verbatim>\<open>vv\<close> it applies.\<close>

definition update_value :: "Options \<Rightarrow> string \<Rightarrow> jsnum \<Rightarrow> RangeSpec \<Rightarrow> jsnum" where
  "update_value opts origin t s =
     (let isStarted = js_gt t (Num (threshold opts));
          v = (if initUntilStart opts \<and> \<not> isStarted then Num (spec_init s)
               else mapByOrigin t s origin);
          vv = Math_max (Math_min v (Num (spec_max s))) (Num (spec_min s))
      in vv)"

text \<open>\<^verbatim>\<open>update()\<close>, given the rectangle and the viewport height it reads.\<close>

definition update ::
  "Options \<Rightarrow> Instance \<Rightarrow> real \<Rightarrow> real \<Rightarrow> real \<Rightarrow> Instance \<times> dom_call list" where
  "update opts inst rect_top rect_bottom vh =
     (let t0 = computeProgress rect_top rect_bottom vh (inst_start inst) (inst_end inst);
          t = (if clamp opts then clamp01 t0 else t0);
          writes = map (\<lambda>s. SetProperty (spec_name s) (update_value opts (inst_origin inst) t s))
                     (inst_specs inst);
          (inst', calls) = updateClasses opts (inst\<lparr>inst_t := t\<rparr>) t False
      in (inst', writes @ calls))"

text \<open>Successive ticks on one instance: one \<^verbatim>\<open>update()\<close> per frame
  \<open>(rect_top, rect_bottom, vh)\<close>, the calls of all of them in order.\<close>

fun updates ::
  "Options \<Rightarrow> Instance \<Rightarrow> (real \<times> real \<times> real) list \<Rightarrow> Instance \<times> dom_call list" where
  "updates opts inst [] = (inst, [])"
| "updates opts inst ((rect_top, rect_bottom, vh) # frames) =
     (let (inst', calls) = update opts inst rect_top rect_bottom vh;
          (inst'', calls') = updates opts inst' frames
      in (inst'', calls @ calls'))"

section \<open>Properties of rounding\<close>

lemma round_even_of_int: "round_even (of_int n) = n"
  by (simp add: round_even_def)

lemma round_even_floor_le: "\<lfloor>y\<rfloor> \<le> round_even y"
  by (simp add: round_even_def Let_def)

lemma round_even_le_floor1: "round_even y \<le> \<lfloor>y\<rfloor> + 1"
  by (simp add: round_even_def Let_def)

lemma round_even_mono:
  assumes "x \<le> y"
  shows "round_even x \<le> round_even y"
proof (cases "\<lfloor>x\<rfloor> = \<lfloor>y\<rfloor>")
  case True
  then show ?thesis using assms by (auto simp: round_even_def Let_def)
next
  case False
  then have "\<lfloor>x\<rfloor> + 1 \<le> \<lfloor>y\<rfloor>" using floor_mono[OF assms] by linarith
  then show ?thesis using round_even_le_floor1[of x] round_even_floor_le[of y] by linarith
qed

lemma round_even_uminus: "round_even (- y) = - round_even y"
proof (cases "y = of_int \<lfloor>y\<rfloor>")
  case True
  then obtain n where "y = of_int n" ..
  then show ?thesis by (simp add: round_even_of_int flip: of_int_minus)
next
  case False
  then have c: "\<lceil>y\<rceil> = \<lfloor>y\<rfloor> + 1"
    by (metis ceiling_altdef)
  have f: "\<lfloor>- y\<rfloor> = - \<lfloor>y\<rfloor> - 1" by (simp add: floor_minus c)
  show ?thesis by (auto simp: round_even_def Let_def f)
qed

lemma round_even_eqI:
  assumes "\<bar>y - of_int n\<bar> < 1 / 2"
  shows "round_even y = n"
proof -
  have "\<lfloor>y\<rfloor> = n \<or> \<lfloor>y\<rfloor> = n - 1" using assms by (auto simp: floor_eq_iff abs_less_iff)
  then show ?thesis using assms by (auto simp: round_even_def Let_def abs_less_iff)
qed

lemma round_even_tie:
  assumes "y = of_int n + 1 / 2"
  shows "round_even y = (if even n then n else n + 1)"
proof -
  have "\<lfloor>y\<rfloor> = n" using assms by (simp add: floor_eq_iff)
  then show ?thesis using assms by (simp add: round_even_def Let_def)
qed

lemma round_even_ge: "of_int n \<le> y \<Longrightarrow> n \<le> round_even y"
  using round_even_mono[of "of_int n" y] by (simp add: round_even_of_int)

lemma round_even_le: "y \<le> of_int n \<Longrightarrow> round_even y \<le> n"
  using round_even_mono[of y "of_int n"] by (simp add: round_even_of_int)


lemma two_powi_pos: "0 < (2::real) powi k"
  by (simp add: zero_less_power_int)

lemma two_powi_mono: "m \<le> n \<Longrightarrow> (2::real) powi m \<le> 2 powi n"
  by (rule power_int_increasing) simp_all

lemma two_powi_strict_mono: "m < n \<Longrightarrow> (2::real) powi m < 2 powi n"
  by (rule power_int_strict_increasing) simp_all

lemma two_powi_less_cancel: "(2::real) powi m < 2 powi n \<Longrightarrow> m < n"
  using two_powi_mono[of n m] by (cases "m < n") auto

lemma two_powi_add: "(2::real) powi (m + n) = 2 powi m * 2 powi n"
  by (simp add: power_int_add)

lemma two_powr_int: "(2::real) powr real_of_int k = 2 powi k"
  by (simp add: powr_real_of_int')

lemma floor_log2_iff:
  assumes "0 < x"
  shows "\<lfloor>log 2 x\<rfloor> = k \<longleftrightarrow> 2 powi k \<le> x \<and> x < 2 powi (k + 1)"
  using floor_log_eq_powr_iff[of x 2 k] assms unfolding two_powr_int by simp

lemma floor_log2_eq:
  assumes "2 powi k \<le> x" and "x < 2 powi (k + 1)"
  shows "\<lfloor>log 2 x\<rfloor> = k"
proof -
  have "0 < x" using assms(1) two_powi_pos[of k] by linarith
  then show ?thesis using assms floor_log2_iff by blast
qed

lemma floor_log2_bounds:
  assumes "0 < x"
  shows "2 powi \<lfloor>log 2 x\<rfloor> \<le> x" and "x < 2 powi (\<lfloor>log 2 x\<rfloor> + 1)"
  using floor_log2_iff[OF assms, of "\<lfloor>log 2 x\<rfloor>"] by blast+

lemma quantum_subnormal: "\<bar>x\<bar> < 2 powi (- 1022) \<Longrightarrow> quantum x = - 1074"
  by (simp only: quantum_def if_True)

lemma quantum_not_subnormal:
  "\<not> \<bar>x\<bar> < 2 powi (- 1022) \<Longrightarrow> quantum x = \<lfloor>log 2 \<bar>x\<bar>\<rfloor> - 52"
  by (simp only: quantum_def if_False)

lemma quantum_normal:
  assumes "2 powi (q + 52) \<le> \<bar>x\<bar>" and "\<bar>x\<bar> < 2 powi (q + 53)" and "- 1074 \<le> q"
  shows "quantum x = q"
proof -
  have "(2::real) powi (- 1022) \<le> 2 powi (q + 52)" using assms(3) by (intro two_powi_mono) simp
  then have n: "\<not> \<bar>x\<bar> < 2 powi (- 1022)" using assms(1) by linarith
  have "q + 53 = q + 52 + 1" by simp
  then have "\<bar>x\<bar> < 2 powi (q + 52 + 1)" using assms(2) by (simp only:)
  with assms(1) have "\<lfloor>log 2 \<bar>x\<bar>\<rfloor> = q + 52" by (rule floor_log2_eq)
  then show ?thesis using quantum_not_subnormal[OF n] by linarith
qed

lemma quantum_ge: "- 1074 \<le> quantum x"
proof (cases "\<bar>x\<bar> < 2 powi (- 1022)")
  case True
  then show ?thesis using quantum_subnormal by simp
next
  case False
  then have p: "0 < \<bar>x\<bar>" using two_powi_pos[of "- 1022"] by linarith
  have "2 powi (- 1022) < (2::real) powi (\<lfloor>log 2 \<bar>x\<bar>\<rfloor> + 1)"
    using False floor_log2_bounds(2)[OF p] by linarith
  then have "- 1022 < \<lfloor>log 2 \<bar>x\<bar>\<rfloor> + 1" by (rule two_powi_less_cancel)
  then show ?thesis using quantum_not_subnormal[OF False] by linarith
qed

lemma quantum_upper: "\<bar>x\<bar> < 2 powi (quantum x + 53)"
proof (cases "\<bar>x\<bar> < 2 powi (- 1022)")
  case True
  have "(2::real) powi (- 1022) \<le> 2 powi (quantum x + 53)"
    using quantum_subnormal[OF True] by (intro two_powi_mono) simp
  then show ?thesis using True by linarith
next
  case False
  then have p: "0 < \<bar>x\<bar>" using two_powi_pos[of "- 1022"] by linarith
  have "\<lfloor>log 2 \<bar>x\<bar>\<rfloor> + 1 = quantum x + 53" using quantum_not_subnormal[OF False] by linarith
  then show ?thesis using floor_log2_bounds(2)[OF p] by (simp only:)
qed

lemma quantum_lower:
  assumes "\<not> \<bar>x\<bar> < 2 powi (- 1022)"
  shows "2 powi (quantum x + 52) \<le> \<bar>x\<bar>"
proof -
  have p: "0 < \<bar>x\<bar>" using assms two_powi_pos[of "- 1022"] by linarith
  have "\<lfloor>log 2 \<bar>x\<bar>\<rfloor> = quantum x + 52" using quantum_not_subnormal[OF assms] by linarith
  then show ?thesis using floor_log2_bounds(1)[OF p] by (simp only:)
qed

lemma quantum_lower': "- 1074 < quantum x \<Longrightarrow> 2 powi (quantum x + 52) \<le> \<bar>x\<bar>"
  using quantum_subnormal[of x] by (intro quantum_lower) auto

lemma quantum_uminus: "quantum (- x) = quantum x"
  unfolding quantum_def abs_minus_cancel ..

lemma quantum_mono:
  assumes "\<bar>x\<bar> \<le> \<bar>y\<bar>"
  shows "quantum x \<le> quantum y"
proof (cases "- 1074 < quantum x")
  case False
  then show ?thesis using quantum_ge[of y] by linarith
next
  case True
  have "2 powi (quantum x + 52) \<le> \<bar>x\<bar>" using True by (rule quantum_lower')
  also have "\<dots> \<le> \<bar>y\<bar>" by (rule assms)
  also have "\<dots> < 2 powi (quantum y + 53)" by (rule quantum_upper)
  finally have "quantum x + 52 < quantum y + 53" by (rule two_powi_less_cancel)
  then show ?thesis by simp
qed


lemma round_unbounded_uminus: "round_unbounded (- x) = - round_unbounded x"
  by (simp add: round_unbounded_def quantum_uminus round_even_uminus)

lemma round_unbounded_nonneg: "0 \<le> x \<Longrightarrow> 0 \<le> round_unbounded x"
proof -
  assume "0 \<le> x"
  then have "0 \<le> x / 2 powi quantum x" using two_powi_pos[of "quantum x"] by simp
  then have "0 \<le> round_even (x / 2 powi quantum x)" using round_even_ge[of 0] by simp
  then show ?thesis using two_powi_pos[of "quantum x"] by (simp add: round_unbounded_def)
qed

lemma round_unbounded_fix:
  assumes "x = of_int m * 2 powi q" and "\<bar>m\<bar> < 2 ^ 53" and "- 1074 \<le> q"
  shows "round_unbounded x = x"
proof -
  have ax: "\<bar>x\<bar> = of_int \<bar>m\<bar> * 2 powi q"
    using two_powi_pos[of q] by (simp add: assms(1) abs_mult)
  have "real_of_int \<bar>m\<bar> < 2 ^ 53" using assms(2) by (metis of_int_less_numeral_power_cancel_iff)
  then have "\<bar>x\<bar> < 2 ^ 53 * 2 powi q" using two_powi_pos[of q] by (simp add: ax)
  also have "\<dots> = 2 powi (q + 53)" by (simp add: two_powi_add)
  finally have ub: "\<bar>x\<bar> < 2 powi (q + 53)" .
  have le: "quantum x \<le> q"
  proof (cases "\<bar>x\<bar> < 2 powi (- 1022)")
    case True
    then show ?thesis using quantum_subnormal assms(3) by simp
  next
    case False
    from quantum_lower[OF False] ub have "2 powi (quantum x + 52) < (2::real) powi (q + 53)"
      by linarith
    then have "quantum x + 52 < q + 53" by (rule two_powi_less_cancel)
    then show ?thesis by simp
  qed
  define p where "p = quantum x"
  define k where "k = nat (q - p)"
  have q: "q = p + int k" using le by (simp add: k_def p_def)
  have "2 powi q = (2::real) powi p * 2 ^ k" by (simp add: q two_powi_add)
  then have xp: "x = of_int m * 2 ^ k * 2 powi p" by (simp add: assms(1))
  have "x / 2 powi p = of_int m * 2 ^ k"
    using two_powi_pos[of p] by (subst xp) simp
  also have "\<dots> = of_int (m * 2 ^ k)" by simp
  finally have "round_even (x / 2 powi p) = m * 2 ^ k"
    by (simp only: round_even_of_int)
  then have "round_unbounded x = of_int (m * 2 ^ k) * 2 powi p"
    by (simp only: round_unbounded_def p_def)
  also have "\<dots> = of_int m * 2 ^ k * 2 powi p" by simp
  also have "\<dots> = x" by (simp only: xp[symmetric])
  finally show ?thesis .
qed


lemma round_unbounded_mono_nonneg:
  assumes "0 \<le> x" and "x \<le> y"
  shows "round_unbounded x \<le> round_unbounded y"
proof -
  define p where "p = quantum x"
  define q where "q = quantum y"
  have pq: "p \<le> q" unfolding p_def q_def using assms by (intro quantum_mono) simp
  show ?thesis
  proof (cases "p = q")
    case True
    have "x / 2 powi q \<le> y / 2 powi q"
      using assms(2) two_powi_pos[of q] by (simp add: divide_right_mono)
    then have "round_even (x / 2 powi q) \<le> round_even (y / 2 powi q)" by (rule round_even_mono)
    then have "real_of_int (round_even (x / 2 powi q)) * 2 powi q
                 \<le> real_of_int (round_even (y / 2 powi q)) * 2 powi q"
      using two_powi_pos[of q] by simp
    then show ?thesis using True by (simp only: round_unbounded_def p_def[symmetric] q_def[symmetric])
  next
    case False
    then have lt: "p + 1 \<le> q" using pq by simp
    have "x < 2 powi (p + 53)" using quantum_upper[of x] assms(1) by (simp add: p_def)
    also have "\<dots> = 2 ^ 53 * 2 powi p" by (simp add: two_powi_add)
    finally have "x / 2 powi p \<le> real_of_int (2 ^ 53)"
      using two_powi_pos[of p] by (simp add: pos_divide_le_eq)
    then have "round_even (x / 2 powi p) \<le> 2 ^ 53" by (rule round_even_le)
    then have "real_of_int (round_even (x / 2 powi p)) \<le> 2 ^ 53"
      by (metis of_int_le_numeral_power_cancel_iff)
    then have "round_unbounded x \<le> 2 ^ 53 * 2 powi p"
      using two_powi_pos[of p] by (simp add: round_unbounded_def p_def[symmetric])
    also have "\<dots> = 2 powi (p + 53)" by (simp add: two_powi_add)
    also have "\<dots> \<le> 2 powi (q + 52)" using lt by (intro two_powi_mono) simp
    finally have a: "round_unbounded x \<le> 2 powi (q + 52)" .
    have "- 1074 < q" using lt quantum_ge[of x] by (simp add: p_def)
    then have "2 powi (q + 52) \<le> \<bar>y\<bar>" unfolding q_def by (rule quantum_lower')
    then have "2 ^ 52 * 2 powi q \<le> y" using assms by (simp add: two_powi_add)
    then have "real_of_int (2 ^ 52) \<le> y / 2 powi q"
      using two_powi_pos[of q] by (simp add: pos_le_divide_eq)
    then have "2 ^ 52 \<le> round_even (y / 2 powi q)" by (rule round_even_ge)
    then have "2 ^ 52 \<le> real_of_int (round_even (y / 2 powi q))"
      by (metis numeral_power_le_of_int_cancel_iff)
    then have "2 ^ 52 * 2 powi q \<le> round_unbounded y"
      using two_powi_pos[of q] by (simp add: round_unbounded_def q_def[symmetric])
    then have "2 powi (q + 52) \<le> round_unbounded y" by (simp add: two_powi_add)
    with a show ?thesis by linarith
  qed
qed

lemma round_unbounded_0: "round_unbounded 0 = 0"
  by (simp add: round_unbounded_def round_even_def)

lemma round_unbounded_mono:
  assumes "x \<le> y"
  shows "round_unbounded x \<le> round_unbounded y"
proof -
  consider "0 \<le> x" | "x < 0" "0 \<le> y" | "y < 0" using assms by linarith
  then show ?thesis
  proof cases
    case 1
    then show ?thesis using assms by (rule round_unbounded_mono_nonneg)
  next
    case 2
    have "0 \<le> round_unbounded (- x)" using 2 by (intro round_unbounded_nonneg) simp
    then have "round_unbounded x \<le> 0" by (simp add: round_unbounded_uminus)
    moreover have "0 \<le> round_unbounded y" using 2 by (intro round_unbounded_nonneg)
    ultimately show ?thesis by linarith
  next
    case 3
    have "round_unbounded (- y) \<le> round_unbounded (- x)"
      using 3 assms by (intro round_unbounded_mono_nonneg) simp_all
    then show ?thesis by (simp add: round_unbounded_uminus)
  qed
qed

lemma round_even_quantum_bound: "\<bar>round_even (x / 2 powi quantum x)\<bar> \<le> 2 ^ 53"
proof -
  define p where "p = quantum x"
  have "\<bar>x\<bar> < 2 powi (p + 53)" using quantum_upper[of x] by (simp add: p_def)
  also have "\<dots> = 2 ^ 53 * 2 powi p" by (simp add: two_powi_add)
  finally have "\<bar>x\<bar> \<le> 2 ^ 53 * 2 powi p" by simp
  then have u: "x \<le> 2 ^ 53 * 2 powi p" and l: "- (2 ^ 53 * 2 powi p) \<le> x" by linarith+
  have "x / 2 powi p \<le> 2 ^ 53"
    using u two_powi_pos[of p] by (simp add: pos_divide_le_eq)
  then have 1: "round_even (x / 2 powi p) \<le> 2 ^ 53"
    using round_even_le[of "x / 2 powi p" "2 ^ 53"] by simp
  have "- (2 ^ 53) \<le> x / 2 powi p"
    using l two_powi_pos[of p] by (simp add: pos_le_divide_eq)
  then have 2: "- (2 ^ 53) \<le> round_even (x / 2 powi p)"
    using round_even_ge[of "- (2 ^ 53)" "x / 2 powi p"] by simp
  from 1 2 have "\<bar>round_even (x / 2 powi p)\<bar> \<le> 2 ^ 53" by linarith
  then show ?thesis unfolding p_def by linarith
qed

lemma round_unbounded_idem: "round_unbounded (round_unbounded x) = round_unbounded x"
proof -
  define p where "p = quantum x"
  define n where "n = round_even (x / 2 powi p)"
  have r: "round_unbounded x = of_int n * 2 powi p"
    by (simp add: round_unbounded_def n_def p_def)
  have b: "\<bar>n\<bar> \<le> 2 ^ 53" unfolding n_def p_def by (rule round_even_quantum_bound)
  have p: "- 1074 \<le> p" unfolding p_def by (rule quantum_ge)
  show ?thesis
  proof (cases "\<bar>n\<bar> < 2 ^ 53")
    case True
    from r True p show ?thesis by (rule round_unbounded_fix)
  next
    case False
    then have e: "n = 2 ^ 53 \<or> n = - (2 ^ 53)" using b by linarith
    define m where "m = n div 2"
    have n2: "n = 2 * m" and m: "\<bar>m\<bar> < 2 ^ 53" using e by (auto simp: m_def)
    have "round_unbounded x = of_int m * 2 powi (p + 1)"
      by (simp add: r n2 two_powi_add)
    from this m show ?thesis by (rule round_unbounded_fix) (use p in simp)
  qed
qed


lemma to_double_cases:
  "to_double x =
     (if 2 ^ 1024 \<le> round_unbounded x then PosInf
      else if round_unbounded x \<le> - (2 ^ 1024) then NegInf
      else Num (round_unbounded x))"
  by (auto simp: to_double_def Let_def abs_le_iff)

lemma to_double_not_NaN: "to_double x \<noteq> NaN"
  by (simp add: to_double_cases)

lemma is_double_iff: "is_double x \<longleftrightarrow> round_unbounded x = x \<and> \<bar>x\<bar> < 2 ^ 1024"
  by (auto simp: is_double_def to_double_cases)

lemma to_double_Num_iff:
  "to_double x = Num y \<longleftrightarrow> round_unbounded x = y \<and> \<bar>y\<bar> < 2 ^ 1024"
  by (auto simp: to_double_cases)

lemma to_double_is_double: "to_double x = Num y \<Longrightarrow> is_double y"
  using round_unbounded_idem[of x] by (auto simp: to_double_Num_iff is_double_iff)

lemma to_double_exact: "is_double x \<Longrightarrow> to_double x = Num x"
  by (simp add: is_double_def)

lemma is_doubleI:
  assumes "x = of_int m * 2 powi q" and "\<bar>m\<bar> < 2 ^ 53" and "- 1074 \<le> q" and "\<bar>x\<bar> < 2 ^ 1024"
  shows "is_double x"
  using round_unbounded_fix[OF assms(1-3)] assms(4) by (simp add: is_double_iff)

lemma is_double_0: "is_double 0"
  by (rule is_doubleI[of _ 0 0]) simp_all

lemma is_double_uminus: "is_double (- x) = is_double x"
  by (simp add: is_double_iff round_unbounded_uminus)

lemma to_double_uminus: "to_double (- x) = negate (to_double x)"
  by (simp add: to_double_cases round_unbounded_uminus)

lemma is_double_int:
  assumes "x \<in> \<int>" and "\<bar>x\<bar> < 2 ^ 53"
  shows "is_double x"
proof -
  from assms(1) obtain m where m: "x = of_int m" by (auto elim: Ints_cases)
  have "real_of_int \<bar>m\<bar> < 2 ^ 53" using assms(2) by (simp add: m)
  then have "\<bar>m\<bar> < 2 ^ 53" by (metis of_int_less_numeral_power_cancel_iff)
  moreover have "\<bar>x\<bar> < 2 ^ 1024" using assms(2) by (rule less_trans) simp
  ultimately show ?thesis by (intro is_doubleI[of x m 0]) (simp_all add: m)
qed

lemma to_double_mono:
  assumes "x \<le> y"
  shows "js_le (to_double x) (to_double y)"
  using round_unbounded_mono[OF assms] by (auto simp: to_double_cases js_le_def)

lemma to_double_nonneg: "0 \<le> x \<Longrightarrow> js_le (Num 0) (to_double x)"
  using to_double_mono[of 0 x] to_double_exact[OF is_double_0] by simp

lemma to_double_nonpos: "x \<le> 0 \<Longrightarrow> js_le (to_double x) (Num 0)"
  using to_double_mono[of x 0] to_double_exact[OF is_double_0] by simp

lemma to_double_PosInf: "2 ^ 1024 \<le> x \<Longrightarrow> to_double x = PosInf"
proof -
  assume a: "2 ^ 1024 \<le> x"
  have "round_unbounded (2 ^ 1024) = 2 ^ 1024"
    by (rule round_unbounded_fix[of _ 1 1024]) simp_all
  then have "2 ^ 1024 \<le> round_unbounded x" using round_unbounded_mono[OF a] by simp
  then show ?thesis by (simp add: to_double_cases)
qed

lemma is_double_grid:
  assumes "is_double x"
  shows "\<exists>k::int. x = of_int k * 2 powi (- 1074)"
proof -
  define p where "p = quantum x"
  define n where "n = round_even (x / 2 powi p)"
  define c where "c = (2::real) powi (- 1074)"
  have x: "x = of_int n * 2 powi p"
    using assms by (simp add: is_double_iff round_unbounded_def n_def p_def)
  have "- 1074 \<le> p" unfolding p_def by (rule quantum_ge)
  then obtain k where pk: "p = - 1074 + int k" by (metis zle_iff_zadd)
  have "(2::real) powi p = c * 2 powi (int k)" unfolding pk c_def by (rule two_powi_add)
  then have "x = of_int (n * 2 ^ k) * c" by (simp add: x)
  then show ?thesis unfolding c_def ..
qed

lemma min_subnormal_is_double: "is_double (2 powi (- 1074))"
proof (rule is_doubleI[of _ 1 "- 1074"])
  have "(2::real) powi (- 1074) \<le> 2 powi 0" by (intro two_powi_mono) simp
  then show "\<bar>(2::real) powi (- 1074)\<bar> < 2 ^ 1024" using two_powi_pos[of "-1074"] by simp
qed simp_all

lemma to_double_diff_pos:
  assumes "is_double a" and "is_double b" and "b < a"
  shows "js_lt (Num 0) (to_double (a - b))"
proof -
  define c where "c = (2::real) powi (- 1074)"
  have c: "0 < c" unfolding c_def by (rule two_powi_pos)
  obtain k l :: int where k: "a = of_int k * c" and l: "b = of_int l * c"
    using is_double_grid[OF assms(1)] is_double_grid[OF assms(2)] unfolding c_def by blast
  have d: "a - b = of_int (k - l) * c" by (simp add: k l algebra_simps)
  have "0 < of_int (k - l) * c" using assms(3) d by linarith
  then have "0 < real_of_int (k - l)" using c by (simp add: zero_less_mult_iff)
  then have "0 < k - l" by (simp only: of_int_0_less_iff)
  then have "1 \<le> k - l" by linarith
  then have "1 \<le> real_of_int (k - l)" by (simp only: of_int_1_le_iff)
  then have "1 * c \<le> real_of_int (k - l) * c"
    using c by (intro mult_right_mono) simp_all
  then have "c \<le> a - b" by (simp only: d mult_1)
  from to_double_mono[OF this] to_double_exact[OF min_subnormal_is_double]
  have "js_le (Num c) (to_double (a - b))" unfolding c_def by simp
  then show ?thesis using c
    by (cases "to_double (a - b)") (auto simp: js_le_def)
qed


lemma to_double_int: "x \<in> \<int> \<Longrightarrow> \<bar>x\<bar> < 2 ^ 53 \<Longrightarrow> to_double x = Num x"
  by (rule to_double_exact) (rule is_double_int)

lemma to_double_0: "to_double 0 = Num 0"
  by (rule to_double_exact) (rule is_double_0)

lemma to_double_evalI:
  assumes "2 powi (q + 52) \<le> \<bar>x\<bar>" and "\<bar>x\<bar> < 2 powi (q + 53)" and "- 1074 \<le> q"
    and "round_even (x / 2 powi q) = n" and "\<bar>of_int n * 2 powi q\<bar> < (2::real) ^ 1024"
  shows "to_double x = Num (of_int n * 2 powi q)"
proof -
  have "quantum x = q" using assms(1-3) by (rule quantum_normal)
  then have "round_unbounded x = of_int n * 2 powi q" by (simp add: round_unbounded_def assms(4))
  then show ?thesis using assms(5) by (simp add: to_double_Num_iff)
qed

section \<open>Properties of the progress\<close>

lemma js_le_Num: "js_le (Num x) (Num y) \<longleftrightarrow> x \<le> y"
  by (auto simp: js_le_def)

lemma js_le_not_lt: "js_le a b \<Longrightarrow> \<not> js_lt b a"
  by (cases a; cases b) (auto simp: js_le_def)


lemma fsub_Num: "fsub (Num x) (Num y) = to_double (x - y)"
  by (simp add: fsub_def)

lemma is_double_1: "is_double 1"
  by (rule is_double_int) simp_all


lemma dbl_or_inf_to_double: "dbl_or_inf (to_double x)"
  using to_double_is_double[of x] by (cases "to_double x") (auto simp: dbl_or_inf_def to_double_not_NaN)

lemma dbl_or_inf_fmul: "dbl_or_inf (fmul (Num x) (Num y))"
  by (simp add: dbl_or_inf_to_double)

lemma dbl_or_inf_offset: "dbl_or_inf (fsub (Num x) (fmul (Num y) (Num z)))"
  using dbl_or_inf_to_double[of "x - r" for r]
  by (cases "to_double (y * z)") (auto simp: fsub_def dbl_or_inf_def to_double_not_NaN)

lemma computeProgress_cases:
  "computeProgress rect_top rect_bottom vh start endp =
     (if js_gt (fsub (Num rect_top) (fmul (Num start) (Num vh))) (Num 0) then Num 0
      else if js_le (fsub (Num rect_bottom) (fmul (Num endp) (Num vh))) (Num 0) then Num 1
      else fdiv (negate (fsub (Num rect_top) (fmul (Num start) (Num vh))))
             (fsub (fsub (Num rect_bottom) (fmul (Num endp) (Num vh)))
                (fsub (Num rect_top) (fmul (Num start) (Num vh)))))"
  by (simp add: computeProgress_def Let_def)

lemma to_double_unit:
  assumes "0 \<le> x" and "x \<le> 1"
  shows "\<exists>y. to_double x = Num y \<and> 0 \<le> y \<and> y \<le> 1"
proof -
  have "js_le (Num 0) (to_double x)" using assms(1) by (rule to_double_nonneg)
  moreover have "js_le (to_double x) (Num 1)"
    using to_double_mono[OF assms(2)] to_double_exact[OF is_double_1] by simp
  ultimately show ?thesis by (cases "to_double x") (auto simp: js_le_def)
qed

lemma quotient_unit:
  assumes "is_double a" and "a \<le> 0" and "dbl_or_inf B" and "js_lt (Num 0) B"
  shows "\<exists>x. fdiv (negate (Num a)) (fsub B (Num a)) = Num x \<and> 0 \<le> x \<and> x \<le> 1"
proof (cases B)
  case (Num b)
  then have b: "is_double b" "0 < b" using assms(3,4) by (simp_all add: dbl_or_inf_def)
  have na: "is_double (- a)" using assms(1) by (simp add: is_double_uminus)
  have D: "fsub B (Num a) = to_double (b - a)" by (simp add: Num fsub_Num)
  have l1: "js_le (Num b) (to_double (b - a))"
    using to_double_mono[of b "b - a"] assms(2) to_double_exact[OF b(1)] by simp
  have l2: "js_le (Num (- a)) (to_double (b - a))"
    using to_double_mono[of "- a" "b - a"] b(2) to_double_exact[OF na] by simp
  show ?thesis
  proof (cases "to_double (b - a)")
    case (Num d)
    then have d: "b \<le> d" "- a \<le> d" using l1 l2 by (auto simp: js_le_def)
    then have "0 < d" using b(2) by linarith
    moreover have q0: "0 \<le> (- a) / d" using assms(2) \<open>0 < d\<close> by (intro divide_nonneg_pos) simp_all
    moreover have q1: "(- a) / d \<le> 1" using d(2) \<open>0 < d\<close> by (simp only: divide_le_eq_1_pos)
    ultimately show ?thesis using to_double_unit[OF q0 q1] by (simp add: D Num)
  next
    case PosInf
    then show ?thesis by (simp add: D)
  next
    case NegInf
    then show ?thesis using l1 by (simp add: js_le_def)
  next
    case NaN
    then show ?thesis using to_double_not_NaN[of "b - a"] by simp
  qed
next
  case PosInf
  then show ?thesis by (simp add: fsub_def)
next
  case NegInf
  then show ?thesis using assms(4) by simp
next
  case NaN
  then show ?thesis using assms(4) by simp
qed








lemma to_double_half: "to_double (1 / 2) = Num (1 / 2)"
  by (rule to_double_exact, rule is_doubleI[of _ 1 "- 1"]) simp_all

lemma to_double_quarter: "to_double (1 / 4) = Num (1 / 4)"
  by (rule to_double_exact, rule is_doubleI[of _ 1 "- 2"]) simp_all

lemmas progress_eval = computeProgress_cases fsub_Num to_double_int to_double_half
  to_double_quarter js_gt_def js_le_Num

lemma offset_pos:
  assumes "is_double x" and "js_gt (Num x) (fmul (Num y) (Num z))"
  shows "js_gt (fsub (Num x) (fmul (Num y) (Num z))) (Num 0)"
proof (cases "to_double (y * z)")
  case (Num s)
  then have "is_double s" "s < x" using assms(2) to_double_is_double[of "y * z" s]
    by (simp_all add: js_gt_def)
  from to_double_diff_pos[OF assms(1) this] show ?thesis by (simp add: Num fsub_Num js_gt_def)
qed (use assms(2) in \<open>simp_all add: js_gt_def fsub_def to_double_not_NaN\<close>)

lemma offset_nonpos:
  assumes "js_le (Num x) (fmul (Num y) (Num z))"
  shows "js_le (fsub (Num x) (fmul (Num y) (Num z))) (Num 0)"
proof (cases "to_double (y * z)")
  case (Num s)
  then have "x \<le> s" using assms by (auto simp: js_le_def)
  then have "js_le (to_double (x - s)) (Num 0)" by (intro to_double_nonpos) simp
  then show ?thesis by (simp add: Num fsub_Num)
qed (use assms in \<open>simp_all add: js_le_def fsub_def to_double_not_NaN\<close>)


lemma js_le_trans: "js_le a b \<Longrightarrow> js_le b c \<Longrightarrow> js_le a c"
  by (cases a; cases b; cases c) (auto simp: js_le_def)

lemma js_lt_le_trans: "js_lt a b \<Longrightarrow> js_le b c \<Longrightarrow> js_lt a c"
  by (cases a; cases b; cases c) (auto simp: js_le_def)

lemma span_gt_0:
  assumes "is_double a" and "a \<le> 0" and "dbl_or_inf B" and "js_lt (Num 0) B"
  shows "js_lt (Num 0) (fsub B (Num a))"
proof (cases B)
  case (Num b)
  then have b: "is_double b" "0 < b" using assms(3,4) by (simp_all add: dbl_or_inf_def)
  have "js_le (Num b) (to_double (b - a))"
    using to_double_mono[of b "b - a"] assms(2) to_double_exact[OF b(1)] by simp
  then have "js_lt (Num 0) (to_double (b - a))"
    using b(2) js_lt_le_trans[of "Num 0" "Num b"] by simp
  then show ?thesis by (simp add: Num fsub_Num)
qed (use assms(4) in \<open>simp_all add: fsub_def\<close>)

lemma span_pos:
  assumes "is_double a" and "a \<le> 0" and "dbl_or_inf B" and "js_lt (Num 0) B"
    and "fsub B (Num a) = Num d"
  shows "0 < d"
  using span_gt_0[OF assms(1-4)] assms(5) by simp

subsection \<open>The two guards\<close>

text \<open>
  Claim C1, as amended. \<open>computeProgress\<close> returns exactly 0 whenever the top of the
  element, a double, is below the start line (\<open>rect_top > start * vh\<close>, the product as
  the code computes it), whatever the other inputs. It returns exactly 1 whenever the
  bottom is at or above the end line (\<open>rect_bottom \<le> endp * vh\<close>) and the first guard
  did not fire (\<open>rect_top \<le> start * vh\<close>): the guard for 0 is tested first.
\<close>

theorem computeProgress_guards:
  "(is_double rect_top \<and> js_gt (Num rect_top) (fmul (Num start) (Num vh)) \<longrightarrow>
      computeProgress rect_top rect_bottom vh start endp = Num 0)
   \<and> (js_le (Num rect_top) (fmul (Num start) (Num vh))
        \<and> js_le (Num rect_bottom) (fmul (Num endp) (Num vh)) \<longrightarrow>
      computeProgress rect_top rect_bottom vh start endp = Num 1)"
proof (intro conjI impI)
  assume "is_double rect_top \<and> js_gt (Num rect_top) (fmul (Num start) (Num vh))"
  then have "js_gt (fsub (Num rect_top) (fmul (Num start) (Num vh))) (Num 0)"
    using offset_pos by blast
  then show "computeProgress rect_top rect_bottom vh start endp = Num 0"
    by (simp add: computeProgress_cases)
next
  assume a: "js_le (Num rect_top) (fmul (Num start) (Num vh))
        \<and> js_le (Num rect_bottom) (fmul (Num endp) (Num vh))"
  then have "js_le (fsub (Num rect_top) (fmul (Num start) (Num vh))) (Num 0)"
    using offset_nonpos by blast
  then have "\<not> js_gt (fsub (Num rect_top) (fmul (Num start) (Num vh))) (Num 0)"
    unfolding js_gt_def by (rule js_le_not_lt)
  moreover have "js_le (fsub (Num rect_bottom) (fmul (Num endp) (Num vh))) (Num 0)"
    using a offset_nonpos by blast
  ultimately show "computeProgress rect_top rect_bottom vh start endp = Num 1"
    by (simp add: computeProgress_cases)
qed

theorem computeProgress_guards_witness:
  "computeProgress 100 200 1000 0 1 = Num 0 \<and> computeProgress (- 50) 900 1000 0 1 = Num 1"
proof -
  have a: "is_double 100 \<and> js_gt (Num 100) (fmul (Num 0) (Num 1000))"
    by (simp add: is_double_int to_double_int js_gt_def)
  have b: "js_le (Num (- 50)) (fmul (Num 0) (Num 1000))
        \<and> js_le (Num 900) (fmul (Num 1) (Num 1000))"
    by (simp add: to_double_int js_le_Num)
  from computeProgress_guards[of 100 0 1000 200 1, THEN conjunct1, rule_format, OF a]
    computeProgress_guards[of "- 50" 0 1000 900 1, THEN conjunct2, rule_format, OF b]
  show ?thesis by (rule conjI)
qed

text \<open>
  Claim C1 as stated fails: an element that lies inside the viewport, with the default
  \<open>start = 0\<close> and \<open>end = 1\<close>, has its bottom above the end line and still gets 0, not 1.
\<close>

theorem computeProgress_bottom_above_end_gives_zero:
  "js_le (Num 200) (fmul (Num 1) (Num 1000)) \<and> computeProgress 100 200 1000 0 1 = Num 0"
  by (simp add: progress_eval)

subsection \<open>The interpolation\<close>

text \<open>
  Claim C4, as amended. When neither guard fires and \<open>A\<close> is finite (\<open>A \<le> 0\<close> and
  \<open>B > 0\<close> for the offsets \<open>A\<close> and \<open>B\<close> that the code computes), \<open>computeProgress\<close>
  returns the quotient \<open>-A / (B - A)\<close> of the code, a number in the closed interval
  \<open>[0, 1]\<close>, which is 0 when \<open>A = 0\<close>.
\<close>

theorem computeProgress_interpolation:
  fixes rect_top rect_bottom vh start endp :: real
  defines "A \<equiv> fsub (Num rect_top) (fmul (Num start) (Num vh))"
    and "B \<equiv> fsub (Num rect_bottom) (fmul (Num endp) (Num vh))"
  assumes "A = Num a" and "a \<le> 0" and "js_gt B (Num 0)"
  shows "computeProgress rect_top rect_bottom vh start endp = fdiv (negate A) (fsub B A)
       \<and> (\<exists>x. computeProgress rect_top rect_bottom vh start endp = Num x \<and> 0 \<le> x \<and> x \<le> 1)
       \<and> (a = 0 \<longrightarrow> computeProgress rect_top rect_bottom vh start endp = Num 0)"
proof -
  have dB: "dbl_or_inf B" unfolding B_def by (rule dbl_or_inf_offset)
  have da: "is_double a" using dbl_or_inf_offset[of rect_top start vh] assms(3)
    by (simp add: A_def dbl_or_inf_def)
  have pB: "js_lt (Num 0) B" using assms(5) by (simp add: js_gt_def)
  then have nB: "\<not> js_le B (Num 0)" using js_le_not_lt by blast
  have cp: "computeProgress rect_top rect_bottom vh start endp = fdiv (negate A) (fsub B A)"
    using assms(3,4) nB unfolding A_def B_def by (simp add: computeProgress_cases js_gt_def)
  have r: "\<exists>x. fdiv (negate A) (fsub B A) = Num x \<and> 0 \<le> x \<and> x \<le> 1"
    unfolding assms(3) using da assms(4) dB pB by (rule quotient_unit)
  have z: "a = 0 \<longrightarrow> fdiv (negate A) (fsub B A) = Num 0"
  proof
    assume a0: "a = 0"
    show "fdiv (negate A) (fsub B A) = Num 0"
    proof (cases "fsub B (Num a)")
      case (Num d)
      have "0 < d" using span_pos[OF da assms(4) dB pB Num] .
      moreover have "fsub B (Num 0) = Num d" using Num a0 by simp
      ultimately show ?thesis by (simp add: assms(3) a0 to_double_0)
    next
      case NaN
      then show ?thesis using r by (simp add: assms(3))
    qed (simp_all add: assms(3))
  qed
  show ?thesis using cp r z by simp
qed

theorem computeProgress_interpolation_witness:
  "computeProgress (- 100) 550 1000 0 (1 / 4) = Num (1 / 4)"
proof -
  have a: "fsub (Num (- 100)) (fmul (Num 0) (Num 1000)) = Num (- 100)"
    and b: "js_gt (fsub (Num 550) (fmul (Num (1 / 4)) (Num 1000))) (Num 0)"
    and c: "fsub (Num 550) (fmul (Num (1 / 4)) (Num 1000)) = Num 300"
    by (simp_all add: fsub_Num to_double_int js_gt_def)
  have "computeProgress (- 100) 550 1000 0 (1 / 4)
      = fdiv (negate (fsub (Num (- 100)) (fmul (Num 0) (Num 1000))))
          (fsub (fsub (Num 550) (fmul (Num (1 / 4)) (Num 1000)))
             (fsub (Num (- 100)) (fmul (Num 0) (Num 1000))))"
    using computeProgress_interpolation[OF a _ b] by simp
  then show ?thesis unfolding a c by (simp add: fsub_Num to_double_int to_double_quarter)
qed

text \<open>
  Claim C4 as stated fails at both ends of the interval. With the top exactly on the start
  line (\<open>A = 0\<close>) and the bottom below the end line (\<open>B = 100\<close>) no guard fires and the
  result is 0. With \<open>A = - 3000\<close> and \<open>B = 1 / 2 ^ 42\<close> no guard fires, the span \<open>B - A\<close>
  rounds to 3000, and the result is 1.
\<close>

theorem computeProgress_zero_on_start_line:
  "js_le (fsub (Num 0) (fmul (Num 0) (Num 1000))) (Num 0)
   \<and> js_gt (fsub (Num 100) (fmul (Num 0) (Num 1000))) (Num 0)
   \<and> computeProgress 0 100 1000 0 0 = Num 0
   \<and> is_double (1 / 2 ^ 42)
   \<and> js_le (fsub (Num (- 3000)) (fmul (Num 0) (Num 1000))) (Num 0)
   \<and> js_gt (fsub (Num (1 / 2 ^ 42)) (fmul (Num 0) (Num 1000))) (Num 0)
   \<and> computeProgress (- 3000) (1 / 2 ^ 42) 1000 0 0 = Num 1"
proof -
  have a: "js_le (fsub (Num 0) (fmul (Num 0) (Num 1000))) (Num 0)
   \<and> js_gt (fsub (Num 100) (fmul (Num 0) (Num 1000))) (Num 0)
   \<and> computeProgress 0 100 1000 0 0 = Num 0"
    by (simp add: progress_eval)
  have d: "is_double (1 / 2 ^ 42)"
    by (rule is_doubleI[of _ 1 "- 42"]) (simp_all add: power_int_minus)
  have z: "fmul (Num 0) (Num 1000) = Num 0" by (simp add: to_double_0)
  have A: "fsub (Num (- 3000)) (Num 0) = Num (- 3000)" by (simp add: fsub_Num to_double_int)
  have B: "fsub (Num (1 / 2 ^ 42)) (Num 0) = Num (1 / 2 ^ 42)"
    using d by (simp add: fsub_Num is_double_def)
  have "to_double (1 / 2 ^ 42 - (- 3000)) = Num (of_int 6597069766656000 * 2 powi (- 41))"
    by (rule to_double_evalI) (simp_all add: round_even_def)
  then have D: "fsub (Num (1 / 2 ^ 42)) (Num (- 3000)) = Num 3000" by (simp add: fsub_Num)
  have g: "js_le (Num (- 3000)) (Num 0)" "js_gt (Num (1 / 2 ^ 42)) (Num 0)"
    "\<not> js_gt (Num (- 3000)) (Num 0)" "\<not> js_le (Num (1 / 2 ^ 42)) (Num 0)"
    by (simp_all add: js_le_Num js_gt_def)
  have q: "fdiv (negate (Num (- 3000))) (Num 3000) = Num 1" by (simp add: to_double_int)
  have c: "computeProgress (- 3000) (1 / 2 ^ 42) 1000 0 0 = Num 1"
    unfolding computeProgress_cases z A B D by (simp only: g if_False q)
  show ?thesis using a d g(1,2) c unfolding z A B by blast
qed

text \<open>
  Claim C5. When the top of the element is on the start line and its bottom on the end
  line (\<open>A = 0\<close> and \<open>B = 0\<close>, which covers \<open>start = end\<close> at the straddle instant),
  \<open>computeProgress\<close> returns exactly 1: the guard \<open>B \<le> 0\<close> fires, and the division, whose
  result would be NaN, is not reached. This holds for the offsets as the code computes
  them, for the products as the code computes them, and for the exact products when the
  edges are doubles.
\<close>

theorem computeProgress_degenerate:
  "(fsub (Num rect_top) (fmul (Num start) (Num vh)) = Num 0
      \<and> fsub (Num rect_bottom) (fmul (Num endp) (Num vh)) = Num 0 \<longrightarrow>
      computeProgress rect_top rect_bottom vh start endp = Num 1)
   \<and> (fmul (Num start) (Num vh) = Num rect_top \<and> fmul (Num endp) (Num vh) = Num rect_bottom \<longrightarrow>
      computeProgress rect_top rect_bottom vh start endp = Num 1)
   \<and> (is_double rect_top \<and> is_double rect_bottom
        \<and> rect_top = start * vh \<and> rect_bottom = endp * vh \<longrightarrow>
      computeProgress rect_top rect_bottom vh start endp = Num 1)"
proof (intro conjI impI)
  assume "fsub (Num rect_top) (fmul (Num start) (Num vh)) = Num 0
      \<and> fsub (Num rect_bottom) (fmul (Num endp) (Num vh)) = Num 0"
  then show "computeProgress rect_top rect_bottom vh start endp = Num 1"
    by (simp add: computeProgress_cases js_gt_def js_le_def)
next
  assume "fmul (Num start) (Num vh) = Num rect_top \<and> fmul (Num endp) (Num vh) = Num rect_bottom"
  then show "computeProgress rect_top rect_bottom vh start endp = Num 1"
    by (simp add: computeProgress_cases fsub_Num to_double_0 js_gt_def js_le_def)
next
  assume a: "is_double rect_top \<and> is_double rect_bottom
        \<and> rect_top = start * vh \<and> rect_bottom = endp * vh"
  then have "fmul (Num start) (Num vh) = Num rect_top" "fmul (Num endp) (Num vh) = Num rect_bottom"
    using to_double_exact[of rect_top] to_double_exact[of rect_bottom] by auto
  then show "computeProgress rect_top rect_bottom vh start endp = Num 1"
    by (simp add: computeProgress_cases fsub_Num to_double_0 js_gt_def js_le_def)
qed

theorem computeProgress_degenerate_witness:
  "computeProgress 500 500 1000 (1 / 2) (1 / 2) = Num 1"
proof -
  have a: "fmul (Num (1 / 2)) (Num 1000) = Num 500 \<and> fmul (Num (1 / 2)) (Num 1000) = Num 500"
    by (simp add: to_double_int)
  from computeProgress_degenerate[of 500 "1 / 2" 1000 500 "1 / 2", THEN conjunct2, THEN conjunct1,
      rule_format, OF a]
  show ?thesis .
qed

subsection \<open>The range of the progress\<close>



subsection \<open>Scrolling up\<close>




section \<open>Properties of the parser\<close>

subsection \<open>Evaluation on example strings\<close>

lemmas char_class_defs = is_ws_def is_line_terminator_def is_digit_def is_alpha_def
  is_name_start_def is_name_char_def

lemmas Number_eval = Number_def trim_def radix_literal_def str_unsigned_decimal_def
  exponent_part_def to_double_int scale10_def digits_val_def digit_val_def Let_def

lemma Number_examples:
  "Number ''-5'' = Num (- 5)" "Number ''5'' = Num 5" "Number ''0'' = Num 0" "Number ''1'' = Num 1"
  "Number ''Infinity'' = PosInf"
  by (simp_all add: Number_eval char_class_defs)

lemma match_entry_examples:
  "match_entry ''--x=-5..5@0'' = Some (''--x'', ''-5..5'', Some ''0'')"
  "match_entry ''--scale=0..1'' = Some (''--scale'', ''0..1'', None)"
  "match_entry ''--x=5..-5'' = Some (''--x'', ''5..-5'', None)"
  "match_entry ''--bad=notanumber..5'' = Some (''--bad'', ''notanumber..5'', None)"
  "match_entry ''--x=0..1@Infinity'' = Some (''--x'', ''0..1'', Some ''Infinity'')"
  by (simp_all add: match_entry_def char_class_defs Let_def)

lemma match_range_examples:
  "match_range ''-5..5'' = Some (''-5'', ''5'')"
  "match_range ''0..1'' = Some (''0'', ''1'')"
  "match_range ''5..-5'' = Some (''5'', ''-5'')"
  "match_range ''notanumber..5'' = None"
  by (simp_all add: match_range_def take_number_def char_class_defs Let_def)

lemma trim_examples:
  "trim ''-5..5'' = ''-5..5''" "trim ''0..1'' = ''0..1''" "trim ''5..-5'' = ''5..-5''"
  "trim ''notanumber..5'' = ''notanumber..5''" "trim ''0'' = ''0''" "trim ''Infinity'' = ''Infinity''"
  "trim ''--x=-5..5@0'' = ''--x=-5..5@0''" "trim ''--scale=0..1'' = ''--scale=0..1''"
  "trim ''--x=5..-5'' = ''--x=5..-5''" "trim ''--bad=notanumber..5'' = ''--bad=notanumber..5''"
  by (simp_all add: trim_def is_ws_def)

lemma parseEntry_examples:
  "parseEntry ''--x=-5..5@0'' = Some \<lparr>spec_name = ''--x'', spec_min = - 5, spec_max = 5, spec_init = 0\<rparr>"
  "parseEntry ''--scale=0..1'' = Some \<lparr>spec_name = ''--scale'', spec_min = 0, spec_max = 1, spec_init = 0\<rparr>"
  "parseEntry ''--x=5..-5'' = Some \<lparr>spec_name = ''--x'', spec_min = 5, spec_max = - 5, spec_init = 5\<rparr>"
  "parseEntry ''--bad=notanumber..5'' = None"
  "parseEntry ''--x=0..1@Infinity'' = None"
  by (simp_all add: parseEntry_def match_entry_examples match_range_examples trim_examples Number_examples)

lemma parseSpec_two_entries:
  "parseSpec (Some ''--x=-5..5@0;--scale=0..1'') =
     [\<lparr>spec_name = ''--x'', spec_min = - 5, spec_max = 5, spec_init = 0\<rparr>,
      \<lparr>spec_name = ''--scale'', spec_min = 0, spec_max = 1, spec_init = 0\<rparr>]"
  by (simp add: parseSpec_def trim_examples parseEntry_examples List.map_filter_simps)

lemma parseSpec_reversed:
  "parseSpec (Some ''--x=5..-5'') =
     [\<lparr>spec_name = ''--x'', spec_min = 5, spec_max = - 5, spec_init = 5\<rparr>]"
  by (simp add: parseSpec_def trim_examples parseEntry_examples List.map_filter_simps)

subsection \<open>Entries are parsed one by one\<close>

lemma split_on_not_Nil: "split_on sep s \<noteq> []"
  by (induction s) (auto split: list.splits)

lemma split_on_append:
  "split_on sep (a @ sep # b) = split_on sep a @ split_on sep b"
proof (induction a)
  case Nil
  then show ?case by simp
next
  case (Cons c a)
  obtain p ps where p: "split_on sep a = p # ps"
    using split_on_not_Nil[of sep a] by (cases "split_on sep a") auto
  show ?case using Cons p by simp
qed

lemma split_on_no_sep: "sep \<notin> set s \<Longrightarrow> split_on sep s = [s]"
  by (induction s) auto

lemma trim_Nil: "trim [] = []"
  by (simp add: trim_def)

lemma parseSpec_entries:
  "parseSpec (Some r) =
     List.map_filter parseEntry (filter (\<lambda>s. s \<noteq> []) (map trim (split_on CHR '';'' r)))"
  by (simp add: parseSpec_def trim_Nil List.map_filter_simps)

lemma parseSpec_append:
  "parseSpec (Some (a @ '';'' @ b)) = parseSpec (Some a) @ parseSpec (Some b)"
  by (simp add: parseSpec_entries split_on_append List.map_filter_def)

lemma parseSpec_single_dropped:
  assumes "CHR '';'' \<notin> set part" and "parseEntry (trim part) = None"
  shows "parseSpec (Some part) = []"
  using assms by (simp add: parseSpec_entries split_on_no_sep List.map_filter_simps)

lemma set_tl_subset: "set (tl xs) \<subseteq> set xs"
  by (cases xs) auto

lemma match_entry_no_at:
  assumes "CHR ''@'' \<notin> set part" and "match_entry part = Some (name, m2, m3)"
  shows "m3 = None"
proof (cases part)
  case Nil
  then show ?thesis using assms(2) by (simp add: match_entry_def)
next
  case (Cons c cs)
  let ?r0 = "dropWhile is_ws (dropWhile is_name_char cs)"
  have "set ?r0 \<subseteq> set part"
    by (auto simp: Cons dest!: set_dropWhileD)
  moreover have "set (tl ?r0) \<subseteq> set ?r0"
    by (rule set_tl_subset)
  ultimately have "\<forall>x \<in> set (tl ?r0). x \<noteq> CHR ''@''" using assms(1) by blast
  then have "dropWhile (\<lambda>x. x \<noteq> CHR ''@'') (tl ?r0) = []" by simp
  then show ?thesis using assms(2)
    by (simp add: match_entry_def Cons Let_def split: if_splits)
qed

lemma parseEntry_init_default:
  assumes "parseEntry part = Some e" and "CHR ''@'' \<notin> set part"
  shows "spec_init e = spec_min e"
proof -
  from assms(1) obtain name m2 m3 where m: "match_entry part = Some (name, m2, m3)"
    by (auto simp: parseEntry_def split: option.splits)
  have m3: "m3 = None" using match_entry_no_at[OF assms(2) m] .
  show ?thesis using assms(1)
    by (auto simp: parseEntry_def m m3 Let_def split: option.splits if_splits jsnum.splits)
qed

lemma parseEntry_nonfinite:
  assumes "match_entry part = Some (name, m2, m3)" and "match_range (trim m2) = Some (n1, n2)"
    and "\<not> isFinite (Number n1) \<or> \<not> isFinite (Number n2)
         \<or> (\<exists>r. m3 = Some r \<and> \<not> isFinite (Number (trim r)))"
  shows "parseEntry part = None"
  using assms by (auto simp: parseEntry_def Let_def split: option.splits)

text \<open>
  Claim C8. \<open>parseSpec\<close> never fails and parses the entries between semicolons one by
  one: the result for \<open>a;b\<close> is the result for \<open>a\<close> followed by the result for \<open>b\<close>,
  and an entry that does not parse (\<open>parseEntry\<close> gives \<open>None\<close>) is dropped alone, its
  neighbours still parse. An entry that matches both regular expressions and whose
  \<open>min\<close>, \<open>max\<close> or \<open>init\<close> is not finite is discarded. The string
  \<^verbatim>\<open>--x=-5..5@0;--scale=0..1\<close> gives exactly the two entries \<^verbatim>\<open>{--x, -5, 5, 0}\<close> and
  \<^verbatim>\<open>{--scale, 0, 1, 0}\<close>, and an entry without \<^verbatim>\<open>@\<close> has \<open>init = min\<close>.
\<close>

theorem parseSpec_partial_success:
  "parseSpec (Some (a @ '';'' @ b)) = parseSpec (Some a) @ parseSpec (Some b)
   \<and> (CHR '';'' \<notin> set part \<and> parseEntry (trim part) = None \<longrightarrow>
        parseSpec (Some (a @ '';'' @ part @ '';'' @ b)) = parseSpec (Some a) @ parseSpec (Some b))
   \<and> (match_entry part = Some (name, m2, m3) \<and> match_range (trim m2) = Some (n1, n2)
        \<and> (\<not> isFinite (Number n1) \<or> \<not> isFinite (Number n2)
             \<or> (\<exists>r. m3 = Some r \<and> \<not> isFinite (Number (trim r))))
        \<longrightarrow> parseEntry part = None)
   \<and> parseSpec (Some ''--x=-5..5@0;--scale=0..1'') =
        [\<lparr>spec_name = ''--x'', spec_min = - 5, spec_max = 5, spec_init = 0\<rparr>,
         \<lparr>spec_name = ''--scale'', spec_min = 0, spec_max = 1, spec_init = 0\<rparr>]
   \<and> (parseEntry part = Some e \<and> CHR ''@'' \<notin> set part \<longrightarrow> spec_init e = spec_min e)"
proof -
  have 2: "CHR '';'' \<notin> set part \<and> parseEntry (trim part) = None \<longrightarrow>
        parseSpec (Some (a @ '';'' @ part @ '';'' @ b)) = parseSpec (Some a) @ parseSpec (Some b)"
    using parseSpec_append[of a "part @ '';'' @ b"] parseSpec_append[of part b]
      parseSpec_single_dropped[of part]
    by simp
  have 3: "match_entry part = Some (name, m2, m3) \<and> match_range (trim m2) = Some (n1, n2)
        \<and> (\<not> isFinite (Number n1) \<or> \<not> isFinite (Number n2)
             \<or> (\<exists>r. m3 = Some r \<and> \<not> isFinite (Number (trim r))))
        \<longrightarrow> parseEntry part = None"
    using parseEntry_nonfinite[of part name m2 m3 n1 n2] by blast
  have 6: "parseEntry part = Some e \<and> CHR ''@'' \<notin> set part \<longrightarrow> spec_init e = spec_min e"
    using parseEntry_init_default by blast
  show ?thesis using parseSpec_append[of a b] 2 3 parseSpec_two_entries 6 by blast
qed

theorem parseSpec_partial_success_witness:
  "parseSpec (Some (''--scale=0..1'' @ '';'' @ ''--bad=notanumber..5'' @ '';'' @ ''--x=-5..5@0''))
     = parseSpec (Some ''--scale=0..1'') @ parseSpec (Some ''--x=-5..5@0'')
   \<and> parseEntry ''--x=0..1@Infinity'' = None
   \<and> parseEntry ''--scale=0..1''
       = Some \<lparr>spec_name = ''--scale'', spec_min = 0, spec_max = 1, spec_init = 0\<rparr>
   \<and> spec_init \<lparr>spec_name = ''--scale'', spec_min = 0, spec_max = 1, spec_init = 0\<rparr>
       = spec_min \<lparr>spec_name = ''--scale'', spec_min = 0, spec_max = 1, spec_init = 0\<rparr>"
proof -
  have bad: "CHR '';'' \<notin> set ''--bad=notanumber..5'' \<and> parseEntry (trim ''--bad=notanumber..5'') = None"
    by (simp add: trim_examples parseEntry_examples)
  have inf: "match_entry ''--x=0..1@Infinity'' = Some (''--x'', ''0..1'', Some ''Infinity'')
      \<and> match_range (trim ''0..1'') = Some (''0'', ''1'')
      \<and> (\<not> isFinite (Number ''0'') \<or> \<not> isFinite (Number ''1'')
           \<or> (\<exists>r. Some ''Infinity'' = Some r \<and> \<not> isFinite (Number (trim r))))"
    by (simp add: match_entry_examples match_range_examples trim_examples Number_examples)
  have dflt: "parseEntry ''--scale=0..1''
       = Some \<lparr>spec_name = ''--scale'', spec_min = 0, spec_max = 1, spec_init = 0\<rparr>
     \<and> CHR ''@'' \<notin> set ''--scale=0..1''"
    by (simp add: parseEntry_examples)
  note t1 = parseSpec_partial_success[where a = "''--scale=0..1''" and b = "''--x=-5..5@0''"
      and part = "''--bad=notanumber..5''", THEN conjunct2, THEN conjunct1, rule_format, OF bad]
  note t2 = parseSpec_partial_success[where part = "''--x=0..1@Infinity''" and name = "''--x''"
      and ?m2.0 = "''0..1''" and ?m3.0 = "Some ''Infinity''" and ?n1.0 = "''0''" and ?n2.0 = "''1''",
      THEN conjunct2, THEN conjunct2, THEN conjunct1, rule_format, OF inf]
  note t3 = parseSpec_partial_success[where part = "''--scale=0..1''"
      and e = "\<lparr>spec_name = ''--scale'', spec_min = 0, spec_max = 1, spec_init = 0\<rparr>",
      THEN conjunct2, THEN conjunct2, THEN conjunct2, THEN conjunct2, rule_format, OF dflt]
  show ?thesis using t1 t2 t3 dflt by blast
qed

section \<open>Properties of the mapping\<close>






lemma mapByOrigin_modes:
  "mapByOrigin t s ''min''
     = fadd (Num (spec_min s)) (fmul t (fsub (Num (spec_max s)) (Num (spec_min s))))"
  "mapByOrigin t s ''center''
     = fadd (fdiv (fadd (Num (spec_min s)) (Num (spec_max s))) (Num 2))
         (fmul (fsub t (Num (1 / 2))) (fsub (Num (spec_max s)) (Num (spec_min s))))"
  "mapByOrigin t s ''init''
     = fadd (Num (spec_init s)) (fmul t (fsub (Num (spec_max s)) (Num (spec_init s))))"
  by (simp_all add: mapByOrigin_def Let_def)












lemma to_double_NegInf: "x \<le> - (2 ^ 1024) \<Longrightarrow> to_double x = NegInf"
  using to_double_PosInf[of "- x"] to_double_uminus[of x] by (cases "to_double x") simp_all

text \<open>The clamp of \<open>update\<close> passes a NaN on: the reversed range \<open>2 ^ 1023 .. - (2 ^ 1023)\<close>
  has the span \<open>-Infinity\<close>, and at the progress \<open>1/2\<close> the origin \<open>center\<close> multiplies it
  by 0.\<close>

lemma mapByOrigin_center_NaN:
  "is_double (2 ^ 1023) \<and> is_double (- (2 ^ 1023))
   \<and> mapByOrigin (Num (1 / 2))
        \<lparr>spec_name = ''--x'', spec_min = 2 ^ 1023, spec_max = - (2 ^ 1023), spec_init = - (2 ^ 1023)\<rparr>
        ''center'' = NaN"
proof -
  have d: "is_double (2 ^ 1023)" by (rule is_doubleI[of _ 1 1023]) simp_all
  then have d': "is_double (- (2 ^ 1023))" by (simp add: is_double_uminus)
  have s: "fsub (Num (- (2 ^ 1023))) (Num (2 ^ 1023)) = NegInf"
    by (simp add: fsub_Num to_double_NegInf)
  have z: "fsub (Num (1 / 2)) (Num (1 / 2)) = Num 0" by (simp add: fsub_Num to_double_0)
  have "mapByOrigin (Num (1 / 2))
        \<lparr>spec_name = ''--x'', spec_min = 2 ^ 1023, spec_max = - (2 ^ 1023), spec_init = - (2 ^ 1023)\<rparr>
        ''center'' = NaN"
    unfolding mapByOrigin_modes RangeSpec.simps s z by (simp add: to_double_0)
  then show ?thesis using d d' by blast
qed






section \<open>Properties of instances\<close>

lemma updateClasses_fst:
  "fst (updateClasses opts inst t initial) =
     inst\<lparr>inst_active := (js_gt t (Num (threshold opts))
                            \<and> js_lt t (fsub (Num 1) (Num (threshold opts)))),
          inst_started := js_gt t (Num (threshold opts)),
          inst_ended := js_ge t (fsub (Num 1) (Num (threshold opts)))\<rparr>"
  by (simp add: updateClasses_def Let_def)

lemma updateClasses_snd:
  "snd (updateClasses opts inst t initial) =
     [ClassToggle (activeClass opts)
        (js_gt t (Num (threshold opts)) \<and> js_lt t (fsub (Num 1) (Num (threshold opts)))),
      ClassToggle (startedClass opts) (js_gt t (Num (threshold opts))),
      ClassToggle (endedClass opts) (js_ge t (fsub (Num 1) (Num (threshold opts))))]
     @ (if initial then []
        else (if \<not> inst_started inst \<and> js_gt t (Num (threshold opts))
              then [DispatchEvent ''sv:start'' t] else [])
           @ (if \<not> inst_active inst
                 \<and> (js_gt t (Num (threshold opts)) \<and> js_lt t (fsub (Num 1) (Num (threshold opts))))
              then [DispatchEvent ''sv:enter'' t] else [])
           @ (if inst_active inst
                 \<and> \<not> (js_gt t (Num (threshold opts)) \<and> js_lt t (fsub (Num 1) (Num (threshold opts))))
              then [DispatchEvent ''sv:leave'' t] else [])
           @ (if \<not> inst_ended inst \<and> js_ge t (fsub (Num 1) (Num (threshold opts)))
              then [DispatchEvent ''sv:end'' t] else []))"
  by (simp add: updateClasses_def Let_def)

lemma update_D:
  assumes "update opts inst rect_top rect_bottom vh = (inst', calls)"
  shows "inst' = fst (updateClasses opts (inst\<lparr>inst_t := inst_t inst'\<rparr>) (inst_t inst') False)"
    and "calls = map (\<lambda>s. SetProperty (spec_name s) (update_value opts (inst_origin inst) (inst_t inst') s))
                   (inst_specs inst)
                 @ snd (updateClasses opts (inst\<lparr>inst_t := inst_t inst'\<rparr>) (inst_t inst') False)"
proof -
  define t0 where "t0 = computeProgress rect_top rect_bottom vh (inst_start inst) (inst_end inst)"
  define t where "t = (if clamp opts then clamp01 t0 else t0)"
  have r: "inst' = fst (updateClasses opts (inst\<lparr>inst_t := t\<rparr>) t False)"
     "calls = map (\<lambda>s. SetProperty (spec_name s) (update_value opts (inst_origin inst) t s))
                   (inst_specs inst)
                 @ snd (updateClasses opts (inst\<lparr>inst_t := t\<rparr>) t False)"
    using assms by (auto simp: update_def t_def t0_def Let_def split: prod.splits)
  have "inst_t inst' = t" using r(1) by (simp add: updateClasses_fst)
  then show "inst' = fst (updateClasses opts (inst\<lparr>inst_t := inst_t inst'\<rparr>) (inst_t inst') False)"
    and "calls = map (\<lambda>s. SetProperty (spec_name s) (update_value opts (inst_origin inst) (inst_t inst') s))
                   (inst_specs inst)
                 @ snd (updateClasses opts (inst\<lparr>inst_t := inst_t inst'\<rparr>) (inst_t inst') False)"
    using r by simp_all
qed

lemma update_writes:
  assumes "update opts inst rect_top rect_bottom vh = (inst', calls)"
  shows "filter is_SetProperty calls =
           map (\<lambda>s. SetProperty (spec_name s) (update_value opts (inst_origin inst) (inst_t inst') s))
             (inst_specs inst)"
  by (subst update_D(2)[OF assms]) (simp add: updateClasses_snd filter_map comp_def)

lemma update_fields:
  assumes "update opts inst rect_top rect_bottom vh = (inst', calls)"
  shows "inst_specs inst' = inst_specs inst" "inst_origin inst' = inst_origin inst"
    "inst_start inst' = inst_start inst" "inst_end inst' = inst_end inst"
    "inst_started inst' = js_gt (inst_t inst') (Num (threshold opts))"
    "inst_ended inst' = js_ge (inst_t inst') (fsub (Num 1) (Num (threshold opts)))"
    "inst_active inst' = (js_gt (inst_t inst') (Num (threshold opts))
                          \<and> js_lt (inst_t inst') (fsub (Num 1) (Num (threshold opts))))"
  by (subst update_D(1)[OF assms], simp add: updateClasses_fst)+

lemma update_events:
  assumes "update opts inst rect_top rect_bottom vh = (inst', calls)"
  shows "filter is_DispatchEvent calls =
      (if \<not> inst_started inst \<and> inst_started inst' then [DispatchEvent ''sv:start'' (inst_t inst')] else [])
    @ (if \<not> inst_active inst \<and> inst_active inst' then [DispatchEvent ''sv:enter'' (inst_t inst')] else [])
    @ (if inst_active inst \<and> \<not> inst_active inst' then [DispatchEvent ''sv:leave'' (inst_t inst')] else [])
    @ (if \<not> inst_ended inst \<and> inst_ended inst' then [DispatchEvent ''sv:end'' (inst_t inst')] else [])"
  by (subst update_D(2)[OF assms])
     (simp add: updateClasses_snd filter_map comp_def update_fields(5-7)[OF assms])

lemma constructor_fst:
  "fst (Instance_constructor opts attrs) =
     \<lparr>inst_specs = map clamp_init (parseSpec (attrs (specAttr opts))),
      inst_start = toNum (attrs (startAttr opts)) 0,
      inst_end = toNum (attrs (endAttr opts)) 1,
      inst_origin = (if attrs (originAttr opts) = Some ''min'' \<or> attrs (originAttr opts) = Some ''center''
                        \<or> attrs (originAttr opts) = Some ''init''
                     then the (attrs (originAttr opts)) else progressOrigin opts),
      inst_t = Num 0,
      inst_active = (js_gt (Num 0) (Num (threshold opts))
                     \<and> js_lt (Num 0) (fsub (Num 1) (Num (threshold opts)))),
      inst_started = js_gt (Num 0) (Num (threshold opts)),
      inst_ended = js_ge (Num 0) (fsub (Num 1) (Num (threshold opts)))\<rparr>"
  by (simp add: Instance_constructor_def Let_def updateClasses_def split: prod.splits)

lemma constructor_snd:
  "snd (Instance_constructor opts attrs) =
     map (\<lambda>s. SetProperty (spec_name s) (Num (spec_init s)))
       (map clamp_init (parseSpec (attrs (specAttr opts))))
     @ [ClassToggle (activeClass opts)
          (js_gt (Num 0) (Num (threshold opts)) \<and> js_lt (Num 0) (fsub (Num 1) (Num (threshold opts)))),
        ClassToggle (startedClass opts) (js_gt (Num 0) (Num (threshold opts))),
        ClassToggle (endedClass opts) (js_ge (Num 0) (fsub (Num 1) (Num (threshold opts))))]"
  by (simp add: Instance_constructor_def Let_def updateClasses_def split: prod.splits)

subsection \<open>Evaluation on example elements\<close>

lemma DEFAULTS_fields:
  "startAttr DEFAULTS = ''data-sv-start''" "endAttr DEFAULTS = ''data-sv-end''"
  "specAttr DEFAULTS = ''data-sv''" "originAttr DEFAULTS = ''data-sv-origin''"
  "activeClass DEFAULTS = ''is-sv-active''" "startedClass DEFAULTS = ''is-sv-started''"
  "endedClass DEFAULTS = ''is-sv-ended''" "clamp DEFAULTS" "initUntilStart DEFAULTS"
  "progressOrigin DEFAULTS = ''init''"
  by (simp_all add: DEFAULTS_def)

text \<open>The default threshold, and \<^verbatim>\<open>1 - threshold\<close> as the code computes it.\<close>

lemma threshold_DEFAULTS: "threshold DEFAULTS = 1152921504606847 / 2305843009213693952"
  by (simp add: DEFAULTS_def)

lemma one_minus_threshold:
  "to_double (1 - 1152921504606847 / 2305843009213693952) = Num (4501347827556811 / 2 ^ 52)"
proof -
  have "to_double (1 - 1152921504606847 / 2305843009213693952)
          = Num (of_int 9002695655113622 * 2 powi (- 53))"
    by (rule to_double_evalI) (simp_all add: round_even_def)
  then show ?thesis by simp
qed

lemmas update_eval = update_def computeProgress_cases clamp01_def updateClasses_def
  update_value_def mapByOrigin_def DEFAULTS_fields threshold_DEFAULTS
  one_minus_threshold[simplified] Let_def
  fsub_Num to_double_int to_double_half js_gt_def js_ge_def js_le_Num Math_min_def Math_max_def

lemmas constructor_eval = constructor_fst DEFAULTS_fields threshold_DEFAULTS
  one_minus_threshold[simplified] fsub_Num js_gt_def js_ge_def js_le_Num clamp_init_def toNum_def

lemma constructor_two_entries:
  "fst (Instance_constructor DEFAULTS
          (map_of [(''data-sv'', ''--x=-5..5@0;--scale=0..1''), (''data-sv-origin'', ''min'')])) =
     \<lparr>inst_specs = [\<lparr>spec_name = ''--x'', spec_min = - 5, spec_max = 5, spec_init = 0\<rparr>,
                    \<lparr>spec_name = ''--scale'', spec_min = 0, spec_max = 1, spec_init = 0\<rparr>],
      inst_start = 0, inst_end = 1, inst_origin = ''min'', inst_t = Num 0,
      inst_active = False, inst_started = False, inst_ended = False\<rparr>"
  by (simp add: constructor_eval parseSpec_two_entries)

lemma constructor_reversed:
  "fst (Instance_constructor DEFAULTS
          (map_of [(''data-sv'', ''--x=5..-5''), (''data-sv-origin'', ''min'')])) =
     \<lparr>inst_specs = [\<lparr>spec_name = ''--x'', spec_min = 5, spec_max = - 5, spec_init = - 5\<rparr>],
      inst_start = 0, inst_end = 1, inst_origin = ''min'', inst_t = Num 0,
      inst_active = False, inst_started = False, inst_ended = False\<rparr>"
  by (simp add: constructor_eval parseSpec_reversed)

lemma constructor_bare:
  "fst (Instance_constructor DEFAULTS Map.empty) =
     \<lparr>inst_specs = [], inst_start = 0, inst_end = 1, inst_origin = ''init'', inst_t = Num 0,
      inst_active = False, inst_started = False, inst_ended = False\<rparr>"
  by (simp add: constructor_eval parseSpec_def)

subsection \<open>Notifications\<close>

text \<open>
  Claim C6. On every \<open>update\<close>, each notification is dispatched exactly when its flag
  changed against the flags the instance held before: \<^verbatim>\<open>sv:start\<close> iff \<open>started\<close> went
  from false to true, \<^verbatim>\<open>sv:enter\<close> iff \<open>active\<close> went from false to true, \<^verbatim>\<open>sv:leave\<close>
  iff \<open>active\<close> went from true to false, \<^verbatim>\<open>sv:end\<close> iff \<open>ended\<close> went from false to
  true. The notifications of one update come in the order start, enter, leave, end, each
  at most once and each with the current \<open>t\<close>, whatever number \<open>t\<close> is. The constructor
  sets the flags from \<open>t = 0\<close> and dispatches nothing.
\<close>

theorem update_notifications:
  assumes "update opts inst rect_top rect_bottom vh = (inst', calls)"
  shows "(DispatchEvent ''sv:start'' (inst_t inst') \<in> set calls
            \<longleftrightarrow> \<not> inst_started inst \<and> inst_started inst')
       \<and> (DispatchEvent ''sv:enter'' (inst_t inst') \<in> set calls
            \<longleftrightarrow> \<not> inst_active inst \<and> inst_active inst')
       \<and> (DispatchEvent ''sv:leave'' (inst_t inst') \<in> set calls
            \<longleftrightarrow> inst_active inst \<and> \<not> inst_active inst')
       \<and> (DispatchEvent ''sv:end'' (inst_t inst') \<in> set calls
            \<longleftrightarrow> \<not> inst_ended inst \<and> inst_ended inst')
       \<and> subseq (filter is_DispatchEvent calls)
            [DispatchEvent ''sv:start'' (inst_t inst'), DispatchEvent ''sv:enter'' (inst_t inst'),
             DispatchEvent ''sv:leave'' (inst_t inst'), DispatchEvent ''sv:end'' (inst_t inst')]
       \<and> filter is_DispatchEvent (snd (Instance_constructor opts attrs)) = []
       \<and> inst_started (fst (Instance_constructor opts attrs))
           = js_gt (Num 0) (Num (threshold opts))
       \<and> inst_ended (fst (Instance_constructor opts attrs))
           = js_ge (Num 0) (fsub (Num 1) (Num (threshold opts)))
       \<and> inst_active (fst (Instance_constructor opts attrs))
           = (js_gt (Num 0) (Num (threshold opts))
              \<and> js_lt (Num 0) (fsub (Num 1) (Num (threshold opts))))"
proof -
  let ?evs = "filter is_DispatchEvent calls"
  have mem: "\<And>n. DispatchEvent n (inst_t inst') \<in> set calls \<longleftrightarrow> DispatchEvent n (inst_t inst') \<in> set ?evs"
    by simp
  note ev = update_events[OF assms]
  have 1: "DispatchEvent ''sv:start'' (inst_t inst') \<in> set calls
            \<longleftrightarrow> \<not> inst_started inst \<and> inst_started inst'"
    unfolding mem ev by simp
  have 2: "DispatchEvent ''sv:enter'' (inst_t inst') \<in> set calls
            \<longleftrightarrow> \<not> inst_active inst \<and> inst_active inst'"
    unfolding mem ev by simp
  have 3: "DispatchEvent ''sv:leave'' (inst_t inst') \<in> set calls
            \<longleftrightarrow> inst_active inst \<and> \<not> inst_active inst'"
    unfolding mem ev by simp
  have 4: "DispatchEvent ''sv:end'' (inst_t inst') \<in> set calls
            \<longleftrightarrow> \<not> inst_ended inst \<and> inst_ended inst'"
    unfolding mem ev by simp
  have 5: "subseq ?evs
            [DispatchEvent ''sv:start'' (inst_t inst'), DispatchEvent ''sv:enter'' (inst_t inst'),
             DispatchEvent ''sv:leave'' (inst_t inst'), DispatchEvent ''sv:end'' (inst_t inst')]"
    unfolding ev by simp
  have 6: "filter is_DispatchEvent (snd (Instance_constructor opts attrs)) = []"
    by (simp add: constructor_snd filter_map comp_def)
  show ?thesis using 1 2 3 4 5 6 by (simp add: constructor_fst)
qed

theorem update_notifications_witness:
  "\<exists>inst' calls.
     update DEFAULTS (fst (Instance_constructor DEFAULTS Map.empty)) (- 500) 400 1000 = (inst', calls)
     \<and> inst_t inst' = Num 1
     \<and> filter is_DispatchEvent calls
         = [DispatchEvent ''sv:start'' (Num 1), DispatchEvent ''sv:end'' (Num 1)]
     \<and> DispatchEvent ''sv:start'' (inst_t inst') \<in> set calls
     \<and> DispatchEvent ''sv:enter'' (inst_t inst') \<notin> set calls
     \<and> DispatchEvent ''sv:end'' (inst_t inst') \<in> set calls
     \<and> subseq (filter is_DispatchEvent calls)
          [DispatchEvent ''sv:start'' (inst_t inst'), DispatchEvent ''sv:enter'' (inst_t inst'),
           DispatchEvent ''sv:leave'' (inst_t inst'), DispatchEvent ''sv:end'' (inst_t inst')]"
proof -
  let ?i0 = "fst (Instance_constructor DEFAULTS Map.empty)"
  let ?i1 = "\<lparr>inst_specs = [], inst_start = 0, inst_end = 1, inst_origin = ''init'', inst_t = Num 1,
      inst_active = False, inst_started = True, inst_ended = True\<rparr>"
  let ?c1 = "[ClassToggle ''is-sv-active'' False, ClassToggle ''is-sv-started'' True,
      ClassToggle ''is-sv-ended'' True, DispatchEvent ''sv:start'' (Num 1),
      DispatchEvent ''sv:end'' (Num 1)]"
  have h: "update DEFAULTS ?i0 (- 500) 400 1000 = (?i1, ?c1)"
    unfolding constructor_bare by (simp add: update_eval)
  have f: "\<not> inst_started ?i0" "\<not> inst_active ?i0" "\<not> inst_ended ?i0"
    unfolding constructor_bare by simp_all
  have g: "inst_started ?i1" "\<not> inst_active ?i1" "inst_ended ?i1" "inst_t ?i1 = Num 1"
    by simp_all
  note t = update_notifications[OF h, of Map.empty]
  have 1: "DispatchEvent ''sv:start'' (inst_t ?i1) \<in> set ?c1" using t f g by blast
  have 2: "DispatchEvent ''sv:enter'' (inst_t ?i1) \<notin> set ?c1" using t f g by blast
  have 3: "DispatchEvent ''sv:end'' (inst_t ?i1) \<in> set ?c1" using t f g by blast
  have 4: "subseq (filter is_DispatchEvent ?c1)
          [DispatchEvent ''sv:start'' (inst_t ?i1), DispatchEvent ''sv:enter'' (inst_t ?i1),
           DispatchEvent ''sv:leave'' (inst_t ?i1), DispatchEvent ''sv:end'' (inst_t ?i1)]"
    using t by blast
  have 5: "filter is_DispatchEvent ?c1
             = [DispatchEvent ''sv:start'' (Num 1), DispatchEvent ''sv:end'' (Num 1)]"
    by simp
  show ?thesis using h g(4) 5 1 2 3 4 by blast
qed

subsection \<open>Reversed ranges\<close>

lemma Math_clamp_inside:
  "mn \<le> x \<Longrightarrow> x \<le> mx \<Longrightarrow> Math_max (Math_min (Num x) (Num mx)) (Num mn) = Num x"
  by (simp add: Math_min_def Math_max_def)

lemma Math_clamp_reversed:
  "mx < mn \<Longrightarrow> v \<noteq> NaN \<Longrightarrow> Math_max (Math_min v (Num mx)) (Num mn) = Num mn"
  by (cases v) (auto simp: Math_min_def Math_max_def)

lemma Math_clamp_NaN: "Math_max (Math_min NaN b) c = NaN"
  by (simp add: Math_min_def Math_max_def)

text \<open>
  Claim C2, as amended. For a spec with \<open>min > max\<close> and every progress, the value that
  \<open>update\<close> applies is \<open>Math.max(Math.min(v, max), min)\<close> for the held or mapped value
  \<open>v\<close>. When \<open>v\<close> is a number or an infinity that is \<open>min\<close> itself, whatever \<open>v\<close> is:
  the value applied is constant. When \<open>v\<close> is NaN the value applied is NaN.
\<close>

theorem update_reversed_range:
  assumes "update opts inst rect_top rect_bottom vh = (inst', calls)"
      and "i < length (inst_specs inst)"
      and "spec_min (inst_specs inst ! i) > spec_max (inst_specs inst ! i)"
  shows "(let s = inst_specs inst ! i;
              v = (if initUntilStart opts \<and> \<not> js_gt (inst_t inst') (Num (threshold opts))
                   then Num (spec_init s) else mapByOrigin (inst_t inst') s (inst_origin inst))
          in filter is_SetProperty calls ! i
               = SetProperty (spec_name s) (Math_max (Math_min v (Num (spec_max s))) (Num (spec_min s)))
           \<and> (v \<noteq> NaN \<longrightarrow> filter is_SetProperty calls ! i = SetProperty (spec_name s) (Num (spec_min s)))
           \<and> (v = NaN \<longrightarrow> filter is_SetProperty calls ! i = SetProperty (spec_name s) NaN))"
  using assms(2,3)
  by (auto simp: update_writes[OF assms(1)] update_value_def Let_def Math_clamp_reversed Math_clamp_NaN)

theorem update_reversed_range_witness:
  "\<exists>inst' calls.
     update DEFAULTS (fst (Instance_constructor DEFAULTS
        (map_of [(''data-sv'', ''--x=5..-5''), (''data-sv-origin'', ''min'')]))) (- 500) 1500 1000
       = (inst', calls)
     \<and> inst_t inst' = Num (1 / 2)
     \<and> filter is_SetProperty calls ! 0 = SetProperty ''--x'' (Num 5)"
proof -
  let ?i0 = "fst (Instance_constructor DEFAULTS
        (map_of [(''data-sv'', ''--x=5..-5''), (''data-sv-origin'', ''min'')]))"
  let ?s = "\<lparr>spec_name = ''--x'', spec_min = 5, spec_max = - 5, spec_init = - 5\<rparr>"
  let ?i1 = "\<lparr>inst_specs = [?s],
      inst_start = 0, inst_end = 1, inst_origin = ''min'', inst_t = Num (1 / 2),
      inst_active = True, inst_started = True, inst_ended = False\<rparr>"
  let ?c1 = "[SetProperty ''--x'' (Num 5), ClassToggle ''is-sv-active'' True,
      ClassToggle ''is-sv-started'' True, ClassToggle ''is-sv-ended'' False,
      DispatchEvent ''sv:start'' (Num (1 / 2)), DispatchEvent ''sv:enter'' (Num (1 / 2))]"
  have h: "update DEFAULTS ?i0 (- 500) 1500 1000 = (?i1, ?c1)"
    unfolding constructor_reversed by (simp add: update_eval)
  have l: "0 < length (inst_specs ?i0)"
    and r: "spec_min (inst_specs ?i0 ! 0) > spec_max (inst_specs ?i0 ! 0)"
    and n: "inst_specs ?i0 ! 0 = ?s" "inst_origin ?i0 = ''min''"
    unfolding constructor_reversed by simp_all
  have v: "(if initUntilStart DEFAULTS \<and> \<not> js_gt (inst_t ?i1) (Num (threshold DEFAULTS))
            then Num (spec_init ?s) else mapByOrigin (inst_t ?i1) ?s ''min'') = Num 0"
    by (simp add: update_eval)
  from update_reversed_range[OF h l r]
  have "filter is_SetProperty ?c1 ! 0 = SetProperty ''--x'' (Num 5)"
    unfolding n Let_def v by simp
  moreover have "inst_t ?i1 = Num (1 / 2)" by simp
  ultimately show ?thesis using h by blast
qed

text \<open>
  Claim C2 as stated fails: for the entry \<^verbatim>\<open>--x=5..-5\<close> with the origin \<open>min\<close> at
  progress \<open>1/2\<close>, the mapped value is 0, inside \<open>[-5, 5]\<close>, and \<open>update\<close> applies 5.
\<close>

theorem update_reversed_range_collapses:
  "update DEFAULTS (fst (Instance_constructor DEFAULTS
        (map_of [(''data-sv'', ''--x=5..-5''), (''data-sv-origin'', ''min'')]))) (- 500) 1500 1000
     = (\<lparr>inst_specs = [\<lparr>spec_name = ''--x'', spec_min = 5, spec_max = - 5, spec_init = - 5\<rparr>],
              inst_start = 0, inst_end = 1, inst_origin = ''min'', inst_t = Num (1 / 2),
              inst_active = True, inst_started = True, inst_ended = False\<rparr>,
             [SetProperty ''--x'' (Num 5), ClassToggle ''is-sv-active'' True,
              ClassToggle ''is-sv-started'' True, ClassToggle ''is-sv-ended'' False,
              DispatchEvent ''sv:start'' (Num (1 / 2)), DispatchEvent ''sv:enter'' (Num (1 / 2))])
   \<and> mapByOrigin (Num (1 / 2)) \<lparr>spec_name = ''--x'', spec_min = 5, spec_max = - 5, spec_init = - 5\<rparr> ''min''
       = Num 0
   \<and> Math_max (Num (- 5)) (Math_min (Num 0) (Num 5)) = Num 0"
  unfolding constructor_reversed by (simp add: update_eval)

subsection \<open>Holding the initial value\<close>

lemma clamp_init_fields:
  "spec_name (clamp_init s) = spec_name s" "spec_min (clamp_init s) = spec_min s"
  "spec_max (clamp_init s) = spec_max s"
  by (simp_all add: clamp_init_def Let_def)

lemma clamp_init_bounds:
  assumes "spec_min s \<le> spec_max s"
  shows "spec_min s \<le> spec_init (clamp_init s)" "spec_init (clamp_init s) \<le> spec_max s"
  using assms by (simp_all add: clamp_init_def Let_def)

lemma updates_specs:
  "updates opts inst frames = (inst', calls) \<Longrightarrow> inst_specs inst' = inst_specs inst"
proof (induction frames arbitrary: inst calls)
  case Nil
  then show ?case by simp
next
  case (Cons f frames)
  obtain a b v where f: "f = (a, b, v)" by (cases f)
  obtain i1 c1 where u: "update opts inst a b v = (i1, c1)" by (cases "update opts inst a b v")
  from Cons.prems obtain c2 where r: "updates opts i1 frames = (inst', c2)"
    unfolding f by (auto simp: u split: prod.splits)
  from Cons.IH[OF r] update_fields(1)[OF u] show ?case by simp
qed

text \<open>
  Claim C7, as amended. With \<open>initUntilStart\<close>, on any \<open>update\<close> of an instance made by
  the constructor, after any number of earlier updates, where the progress is not above
  the threshold (\<open>isStarted\<close> is false), the value applied for every spec with
  \<open>min \<le> max\<close> is that spec's \<open>init\<close>, whatever the origin and the earlier flags:
  nothing latches.
\<close>

theorem update_holds_init:
  assumes "initUntilStart opts"
      and "updates opts (fst (Instance_constructor opts attrs)) frames = (inst, calls0)"
      and "update opts inst rect_top rect_bottom vh = (inst', calls)"
      and "\<not> js_gt (inst_t inst') (Num (threshold opts))"
      and "i < length (inst_specs inst)"
      and "spec_min (inst_specs inst ! i) \<le> spec_max (inst_specs inst ! i)"
  shows "filter is_SetProperty calls ! i
           = SetProperty (spec_name (inst_specs inst ! i)) (Num (spec_init (inst_specs inst ! i)))"
proof -
  let ?s = "inst_specs inst ! i"
  have sp: "inst_specs inst = map clamp_init (parseSpec (attrs (specAttr opts)))"
    using updates_specs[OF assms(2)] by (simp add: constructor_fst)
  then obtain s0 where s0: "?s = clamp_init s0"
    using assms(5) by (auto simp: sp)
  have "spec_min s0 \<le> spec_max s0" using assms(6) by (simp add: s0 clamp_init_fields)
  from clamp_init_bounds[OF this]
  have b: "spec_min ?s \<le> spec_init ?s" "spec_init ?s \<le> spec_max ?s"
    by (simp_all add: s0 clamp_init_fields)
  have "update_value opts (inst_origin inst) (inst_t inst') ?s = Num (spec_init ?s)"
    using assms(1,4) by (simp add: update_value_def Let_def Math_clamp_inside[OF b])
  then show ?thesis using assms(5) by (simp add: update_writes[OF assms(3)])
qed

theorem update_holds_init_witness:
  "\<exists>inst calls0 inst' calls.
     updates DEFAULTS (fst (Instance_constructor DEFAULTS
        (map_of [(''data-sv'', ''--x=-5..5@0;--scale=0..1''), (''data-sv-origin'', ''min'')])))
        [(- 500, 1500, 1000)] = (inst, calls0)
     \<and> inst_started inst
     \<and> update DEFAULTS inst 100 200 1000 = (inst', calls)
     \<and> inst_t inst' = Num 0
     \<and> filter is_SetProperty calls ! 0 = SetProperty ''--x'' (Num 0)"
proof -
  let ?i0 = "fst (Instance_constructor DEFAULTS
        (map_of [(''data-sv'', ''--x=-5..5@0;--scale=0..1''), (''data-sv-origin'', ''min'')]))"
  let ?specs = "[\<lparr>spec_name = ''--x'', spec_min = - 5, spec_max = 5, spec_init = 0\<rparr>,
                    \<lparr>spec_name = ''--scale'', spec_min = 0, spec_max = 1, spec_init = 0\<rparr>]"
  let ?i1 = "\<lparr>inst_specs = ?specs, inst_start = 0, inst_end = 1, inst_origin = ''min'',
      inst_t = Num (1 / 2), inst_active = True, inst_started = True, inst_ended = False\<rparr>"
  let ?c1 = "[SetProperty ''--x'' (Num 0), SetProperty ''--scale'' (Num (1 / 2)),
      ClassToggle ''is-sv-active'' True,
      ClassToggle ''is-sv-started'' True, ClassToggle ''is-sv-ended'' False,
      DispatchEvent ''sv:start'' (Num (1 / 2)), DispatchEvent ''sv:enter'' (Num (1 / 2))]"
  let ?i2 = "\<lparr>inst_specs = ?specs, inst_start = 0, inst_end = 1, inst_origin = ''min'',
      inst_t = Num 0, inst_active = False, inst_started = False, inst_ended = False\<rparr>"
  let ?c2 = "[SetProperty ''--x'' (Num 0), SetProperty ''--scale'' (Num 0),
      ClassToggle ''is-sv-active'' False,
      ClassToggle ''is-sv-started'' False, ClassToggle ''is-sv-ended'' False,
      DispatchEvent ''sv:leave'' (Num 0)]"
  have h1: "updates DEFAULTS ?i0 [(- 500, 1500, 1000)] = (?i1, ?c1)"
    unfolding constructor_two_entries by (simp add: update_eval)
  have h2: "update DEFAULTS ?i1 100 200 1000 = (?i2, ?c2)"
    by (simp add: update_eval)
  have a: "initUntilStart DEFAULTS" by (simp add: DEFAULTS_fields)
  have b: "\<not> js_gt (inst_t ?i2) (Num (threshold DEFAULTS))"
    by (simp add: js_gt_def threshold_DEFAULTS)
  have c: "0 < length (inst_specs ?i1)"
    and d: "spec_min (inst_specs ?i1 ! 0) \<le> spec_max (inst_specs ?i1 ! 0)"
    and n: "spec_name (inst_specs ?i1 ! 0) = ''--x''" "spec_init (inst_specs ?i1 ! 0) = 0"
    by simp_all
  from update_holds_init[OF a h1 h2 b c d]
  have "filter is_SetProperty ?c2 ! 0 = SetProperty ''--x'' (Num 0)"
    unfolding n .
  moreover have "inst_started ?i1" "inst_t ?i2 = Num 0" by simp_all
  ultimately show ?thesis using h1 h2 by blast
qed

text \<open>
  Claim C7 as stated fails for a spec with \<open>min > max\<close>: for the entry \<^verbatim>\<open>--x=5..-5\<close>
  the constructor leaves \<open>init = -5\<close>, and an update before the start applies 5.
\<close>

theorem update_reversed_init_not_held:
  "initUntilStart DEFAULTS
   \<and> update DEFAULTS (fst (Instance_constructor DEFAULTS
        (map_of [(''data-sv'', ''--x=5..-5''), (''data-sv-origin'', ''min'')]))) 100 200 1000
     = (\<lparr>inst_specs = [\<lparr>spec_name = ''--x'', spec_min = 5, spec_max = - 5, spec_init = - 5\<rparr>],
              inst_start = 0, inst_end = 1, inst_origin = ''min'', inst_t = Num 0,
              inst_active = False, inst_started = False, inst_ended = False\<rparr>,
             [SetProperty ''--x'' (Num 5), ClassToggle ''is-sv-active'' False,
              ClassToggle ''is-sv-started'' False, ClassToggle ''is-sv-ended'' False])"
  unfolding constructor_reversed by (simp add: update_eval)

end
